theory Spec2Isabelle
  imports Main "HOL-Library.Sublist" "HOL-Library.Char_ord"
begin

section \<open>Strings of the Go standard library\<close>

text \<open>
  A Go string is a sequence of bytes; it is modelled as \<open>string\<close> (a list of 8-bit
  characters). The functions below are those of package \<open>strings\<close> that
  \<open>pkg/tools/shell.go\<close> calls. They are written for ASCII text: a byte of value 128 or
  more is neither white space nor a letter here. On text outside ASCII Go does more:
  \<open>strings.TrimSpace\<close> also trims the Unicode spaces (U+0085, U+00A0 and others) and
  \<open>strings.ToLower\<close> also maps the letters outside ASCII (U+212A becomes \<open>k\<close>). The
  properties below are stated on the trimmed and lower-cased text and do not rest on what
  these functions do outside ASCII.
\<close>

definition is_space :: "char \<Rightarrow> bool" where
  \<comment> \<open>the ASCII white space of \<open>unicode.IsSpace\<close>: tab, line feed, vertical tab, form feed,
      carriage return, space\<close>
  "is_space c = (c \<in> {CHR 0x09, CHR 0x0A, CHR 0x0B, CHR 0x0C, CHR 0x0D, CHR 0x20})"

definition TrimSpace :: "string \<Rightarrow> string" where
  "TrimSpace s = rev (dropWhile is_space (rev (dropWhile is_space s)))"

definition in_range :: "char \<Rightarrow> char \<Rightarrow> char \<Rightarrow> bool" where
  \<comment> \<open>\<open>lo <= c && c <= hi\<close> on bytes\<close>
  "in_range lo hi c = (lo \<le> c \<and> c \<le> hi)"

definition lower_char :: "char \<Rightarrow> char" where
  "lower_char c =
     (if in_range CHR ''A'' CHR ''Z'' c then char_of (of_char c + (32::nat)) else c)"

definition ToLower :: "string \<Rightarrow> string" where
  "ToLower s = map lower_char s"

fun Contains :: "string \<Rightarrow> string \<Rightarrow> bool" where
  "Contains [] sub = (sub = [])"
| "Contains (c # cs) sub = (prefix sub (c # cs) \<or> Contains cs sub)"

definition HasPrefix :: "string \<Rightarrow> string \<Rightarrow> bool" where
  "HasPrefix s p = prefix p s"

section \<open>Regular expressions of package regexp\<close>

text \<open>
  The patterns of \<open>shell.go\<close> use literals, character classes, \<open>\b\<close>, concatenation,
  alternation and the greedy repetitions \<open>*\<close>, \<open>+\<close>, \<open>{1,2}\<close>; the anchors of the start
  and of the end of the text are there for allow patterns. A cursor is the byte
  before the current position (if any) and the text that is left. \<open>rmatch r c\<close> lists the
  cursors at which a match of \<open>r\<close> that starts at \<open>c\<close> can end, in the order in which a
  backtracking search finds them (leftmost-first, as package regexp specifies).
\<close>

datatype re =
    Eps
  | Chr "char \<Rightarrow> bool"
  | WordB
  | Bol
  | Eol
  | Seq re re
  | Alt re re
  | Star re

type_synonym cursor = "char option \<times> string"

definition is_word :: "char \<Rightarrow> bool" where
  \<comment> \<open>the word characters of \<open>\b\<close>: \<open>[0-9A-Za-z_]\<close>\<close>
  "is_word c = (in_range CHR ''0'' CHR ''9'' c \<or> in_range CHR ''A'' CHR ''Z'' c
     \<or> in_range CHR ''a'' CHR ''z'' c \<or> c = CHR ''_'')"

definition word_before :: "cursor \<Rightarrow> bool" where
  "word_before c = (case fst c of None \<Rightarrow> False | Some x \<Rightarrow> is_word x)"

definition word_after :: "cursor \<Rightarrow> bool" where
  "word_after c = (case snd c of [] \<Rightarrow> False | x # _ \<Rightarrow> is_word x)"

fun star_from :: "(cursor \<Rightarrow> cursor list) \<Rightarrow> nat \<Rightarrow> cursor \<Rightarrow> cursor list" where
  "star_from f 0 c = [c]"
| "star_from f (Suc n) c =
     concat (map (\<lambda>c'. if length (snd c') < length (snd c) then star_from f n c' else [])
       (f c)) @ [c]"

fun rmatch :: "re \<Rightarrow> cursor \<Rightarrow> cursor list" where
  "rmatch Eps c = [c]"
| "rmatch (Chr P) c =
     (case snd c of [] \<Rightarrow> [] | x # xs \<Rightarrow> if P x then [(Some x, xs)] else [])"
| "rmatch WordB c = (if word_before c \<noteq> word_after c then [c] else [])"
| "rmatch Bol c = (if fst c = None then [c] else [])"
| "rmatch Eol c = (if snd c = [] then [c] else [])"
| "rmatch (Seq a b) c = concat (map (rmatch b) (rmatch a c))"
| "rmatch (Alt a b) c = rmatch a c @ rmatch b c"
| "rmatch (Star a) c = star_from (rmatch a) (length (snd c)) c"

text \<open>\<open>MatchString\<close> is an unanchored search: a match may start at any position.\<close>

fun search :: "re \<Rightarrow> char option \<Rightarrow> string \<Rightarrow> bool" where
  "search r p [] = (rmatch r (p, []) \<noteq> [])"
| "search r p (x # xs) = (rmatch r (p, x # xs) \<noteq> [] \<or> search r (Some x) xs)"

definition MatchString :: "re \<Rightarrow> string \<Rightarrow> bool" where
  "MatchString r s = search r None s"

text \<open>
  \<open>FindAllString(s, -1)\<close>: the successive non-overlapping leftmost matches. \<open>skip\<close> counts
  the bytes still inside the match found last; \<open>abut\<close> holds right after a match, where an
  empty match is not accepted.
\<close>

fun find_all :: "re \<Rightarrow> nat \<Rightarrow> bool \<Rightarrow> char option \<Rightarrow> string \<Rightarrow> string list" where
  "find_all r (Suc k) abut p (x # xs) = find_all r k True (Some x) xs"
| "find_all r (Suc k) abut p [] = []"
| "find_all r 0 abut p [] =
     (case rmatch r (p, []) of [] \<Rightarrow> [] | _ # _ \<Rightarrow> if abut then [] else [[]])"
| "find_all r 0 abut p (x # xs) =
     (case rmatch r (p, x # xs) of
        [] \<Rightarrow> find_all r 0 False (Some x) xs
      | c # _ \<Rightarrow>
          (let n = length (x # xs) - length (snd c) in
           if n = 0 then (if abut then [] else [[]]) @ find_all r 0 False (Some x) xs
           else take n (x # xs) # find_all r (n - 1) True (Some x) xs))"

definition FindAllString :: "re \<Rightarrow> string \<Rightarrow> string list" where
  "FindAllString r s = find_all r 0 False None s"

subsection \<open>Writing patterns\<close>

definition lit :: "string \<Rightarrow> re" where
  \<comment> \<open>a literal text\<close>
  "lit s = foldr (\<lambda>c r. Seq (Chr (\<lambda>x. x = c)) r) s Eps"

definition lit_i :: "string \<Rightarrow> re" where
  \<comment> \<open>a literal text under the flag \<open>(?i)\<close>, on ASCII text; package regexp also folds
      \<open>s\<close> with U+017F and \<open>k\<close> with U+212A\<close>
  "lit_i s = foldr (\<lambda>c r. Seq (Chr (\<lambda>x. lower_char x = lower_char c)) r) s Eps"

definition seqs :: "re list \<Rightarrow> re" where
  "seqs rs = foldr Seq rs Eps"

definition alts :: "re \<Rightarrow> re list \<Rightarrow> re" where
  \<comment> \<open>\<open>r|r1|...|rn\<close>\<close>
  "alts r rs = foldl Alt r rs"

definition Plus :: "re \<Rightarrow> re" where
  "Plus r = Seq r (Star r)"

definition Rep12 :: "re \<Rightarrow> re" where
  \<comment> \<open>\<open>r{1,2}\<close>, greedy\<close>
  "Rep12 r = Seq r (Alt r Eps)"

definition re_space :: "char \<Rightarrow> bool" where
  \<comment> \<open>\<open>\s\<close> is \<open>[\t\n\f\r ]\<close>\<close>
  "re_space c = (c \<in> {CHR 0x09, CHR 0x0A, CHR 0x0C, CHR 0x0D, CHR 0x20})"

definition re_digit :: "char \<Rightarrow> bool" where
  "re_digit c = in_range CHR ''0'' CHR ''9'' c"

definition re_any :: "char \<Rightarrow> bool" where
  \<comment> \<open>\<open>.\<close> is any character but the line feed\<close>
  "re_any c = (c \<noteq> CHR 0x0A)"

definition az_i :: "char \<Rightarrow> bool" where
  \<comment> \<open>\<open>[a-z]\<close> under \<open>(?i)\<close>\<close>
  "az_i c = in_range CHR ''a'' CHR ''z'' (lower_char c)"

section \<open>The exec tool (pkg/tools/shell.go)\<close>

record ExecTool =
  workingDir :: string
  timeout :: int
  denyPatterns :: "re list"
  allowPatterns :: "re list"
  restrictToWorkspace :: bool

text \<open>The eleven deny patterns of \<open>NewExecTool\<close>, in the order of the source.\<close>

definition deny_rm :: re where
  \<comment> \<open>\<open>(?i)\brm\s+(-[rf]{1,2}|--recursive|--force)\<close>\<close>
  "deny_rm = seqs [WordB, lit_i ''rm'', Plus (Chr re_space),
     alts (Seq (lit_i ''-'') (Rep12 (Chr (\<lambda>c. lower_char c \<in> {CHR ''r'', CHR ''f''}))))
       [lit_i ''--recursive'', lit_i ''--force'']]"

definition deny_del :: re where
  \<comment> \<open>\<open>(?i)\bdel\s+/[fq]\<close>\<close>
  "deny_del = seqs [WordB, lit_i ''del'', Plus (Chr re_space), lit_i ''/'',
     Chr (\<lambda>c. lower_char c \<in> {CHR ''f'', CHR ''q''})]"

definition deny_rmdir :: re where
  \<comment> \<open>\<open>(?i)\brmdir\s+/s\<close>\<close>
  "deny_rmdir = seqs [WordB, lit_i ''rmdir'', Plus (Chr re_space), lit_i ''/s'']"

definition deny_format :: re where
  \<comment> \<open>\<open>(?i)\b(format|mkfs|diskpart)\b\s\<close>\<close>
  "deny_format = seqs [WordB, alts (lit_i ''format'') [lit_i ''mkfs'', lit_i ''diskpart''],
     WordB, Chr re_space]"

definition deny_dd :: re where
  \<comment> \<open>\<open>(?i)\bdd\s+if=\<close>\<close>
  "deny_dd = seqs [WordB, lit_i ''dd'', Plus (Chr re_space), lit_i ''if='']"

definition deny_dev :: re where
  \<comment> \<open>\<open>(?i)>\s*/dev/(sd[a-z]|nvme\d+n\d+|vd[a-z])\b\<close>\<close>
  "deny_dev = seqs [lit_i ''>'', Star (Chr re_space), lit_i ''/dev/'',
     alts (Seq (lit_i ''sd'') (Chr az_i))
       [seqs [lit_i ''nvme'', Plus (Chr re_digit), lit_i ''n'', Plus (Chr re_digit)],
        Seq (lit_i ''vd'') (Chr az_i)],
     WordB]"

definition deny_power :: re where
  \<comment> \<open>\<open>(?i)\b(shutdown|reboot|poweroff)\b\<close>\<close>
  "deny_power = seqs [WordB, alts (lit_i ''shutdown'') [lit_i ''reboot'', lit_i ''poweroff''],
     WordB]"

definition deny_forkbomb :: re where
  \<comment> \<open>\<open>:\(\)\s*\{.*\};\s*:\<close>\<close>
  "deny_forkbomb = seqs [lit '':()'', Star (Chr re_space), lit ''{'', Star (Chr re_any),
     lit ''};'', Star (Chr re_space), lit '':'']"

definition deny_pipe_shell :: re where
  \<comment> \<open>\<open>(?i)\b(curl|wget)\b.*\|\s*(sh|bash|zsh|dash|ksh|csh|tcsh|fish)\<close>\<close>
  "deny_pipe_shell = seqs [WordB, alts (lit_i ''curl'') [lit_i ''wget''], WordB,
     Star (Chr re_any), lit_i ''|'', Star (Chr re_space),
     alts (lit_i ''sh'') [lit_i ''bash'', lit_i ''zsh'', lit_i ''dash'', lit_i ''ksh'',
       lit_i ''csh'', lit_i ''tcsh'', lit_i ''fish'']]"

definition deny_eval :: re where
  \<comment> \<open>\<open>(?i)\beval\s+\<close>\<close>
  "deny_eval = seqs [WordB, lit_i ''eval'', Plus (Chr re_space)]"

definition deny_xargs_rm :: re where
  \<comment> \<open>\<open>(?i)\bxargs\s+.*\brm\b\<close>\<close>
  "deny_xargs_rm = seqs [WordB, lit_i ''xargs'', Plus (Chr re_space), Star (Chr re_any),
     WordB, lit_i ''rm'', WordB]"

definition NewExecTool :: "string \<Rightarrow> bool \<Rightarrow> ExecTool" where
  \<comment> \<open>the timeout is 60 seconds, in nanoseconds as \<open>time.Duration\<close> counts\<close>
  "NewExecTool wd restrict =
     \<lparr> workingDir = wd,
       timeout = 60 * 1000000000,
       denyPatterns = [deny_rm, deny_del, deny_rmdir, deny_format, deny_dd, deny_dev,
         deny_power, deny_forkbomb, deny_pipe_shell, deny_eval, deny_xargs_rm],
       allowPatterns = [],
       restrictToWorkspace = restrict \<rparr>"

text \<open>
  Package \<open>path/filepath\<close> is not part of the repository and its results depend on the
  host (the separator, the directory of the process). \<open>guardCommand\<close> takes its two
  functions as a parameter; \<open>Inl\<close> is the error.
\<close>

record filepath =
  Abs :: "string \<Rightarrow> string + string"
  Rel :: "string \<Rightarrow> string \<Rightarrow> string + string"

definition win_alt :: re where
  \<comment> \<open>\<open>[A-Za-z]:\\[^\\\"']+\<close>\<close>
  "win_alt = seqs [Chr (\<lambda>c. in_range CHR ''A'' CHR ''Z'' c \<or> in_range CHR ''a'' CHR ''z'' c),
                   lit '':'', Chr (\<lambda>c. c = CHR 0x5C),
                   Plus (Chr (\<lambda>c. c \<notin> {CHR 0x5C, CHR 0x22, CHR 0x27}))]"

definition posix_alt :: re where
  \<comment> \<open>\<open>/[^\s\"']+\<close>\<close>
  "posix_alt = seqs [lit ''/'', Plus (Chr (\<lambda>c. \<not> re_space c \<and> c \<notin> {CHR 0x22, CHR 0x27}))]"

definition pathPattern :: re where
  \<comment> \<open>\<open>[A-Za-z]:\\[^\\\"']+|/[^\s\"']+\<close>\<close>
  "pathPattern = Alt win_alt posix_alt"

text \<open>The loop over the path tokens, at the end of \<open>guardCommand\<close>.\<close>

fun check_paths :: "filepath \<Rightarrow> string \<Rightarrow> string list \<Rightarrow> string" where
  "check_paths fp cwdPath [] = []"
| "check_paths fp cwdPath (raw # matches) =
     (case Abs fp raw of
        Inl err \<Rightarrow> check_paths fp cwdPath matches
      | Inr p \<Rightarrow>
          (case Rel fp cwdPath p of
             Inl err \<Rightarrow> check_paths fp cwdPath matches
           | Inr rel \<Rightarrow>
               if HasPrefix rel ''..''
               then ''Command blocked by safety guard (path outside working dir)''
               else check_paths fp cwdPath matches))"

text \<open>The result is the reason of the block; the empty string means that the command is allowed.\<close>

definition guardCommand :: "filepath \<Rightarrow> ExecTool \<Rightarrow> string \<Rightarrow> string \<Rightarrow> string" where
  "guardCommand fp t command cwd =
     (let cmd = TrimSpace command; lower = ToLower cmd in
      if list_ex (\<lambda>pattern. MatchString pattern lower) (denyPatterns t)
      then ''Command blocked by safety guard (dangerous pattern detected)''
      else if length (allowPatterns t) > 0
              \<and> \<not> list_ex (\<lambda>pattern. MatchString pattern lower) (allowPatterns t)
      then ''Command blocked by safety guard (not in allowlist)''
      else if restrictToWorkspace t then
        if Contains cmd [CHR ''.'', CHR ''.'', CHR 0x5C] \<or> Contains cmd ''../''
        then ''Command blocked by safety guard (path traversal detected)''
        else if Contains cmd ''%2e%2e%2f'' \<or> Contains cmd ''%2e%2e/''
                \<or> Contains cmd ''..%2f'' \<or> Contains cmd ''%2e%2e%5c''
        then ''Command blocked by safety guard (URL-encoded path traversal detected)''
        else if Contains cmd [CHR 0x00] \<or> Contains cmd ''%00''
        then ''Command blocked by safety guard (null byte injection detected)''
        else (case Abs fp cwd of
                Inl err \<Rightarrow> []
              | Inr cwdPath \<Rightarrow> check_paths fp cwdPath (FindAllString pathPattern cmd))
      else [])"

definition SetTimeout :: "ExecTool \<Rightarrow> int \<Rightarrow> ExecTool" where
  "SetTimeout t d = t\<lparr>timeout := d\<rparr>"

definition SetRestrictToWorkspace :: "ExecTool \<Rightarrow> bool \<Rightarrow> ExecTool" where
  "SetRestrictToWorkspace t restrict = t\<lparr>restrictToWorkspace := restrict\<rparr>"

subsection \<open>Execute\<close>

record ToolResult =
  ForLLM :: string
  ForUser :: string
  IsError :: bool

definition ErrorResult :: "string \<Rightarrow> ToolResult" where
  \<comment> \<open>Modelled from the spec: \<open>ErrorResult\<close> is declared in a file of package tools that is
      not among the sources. The spec (sections 4.4, 6 and 7) has every error
      surfaced in the result, with the error flag set and the same text for the model and
      for the user.\<close>
  "ErrorResult message = \<lparr> ForLLM = message, ForUser = message, IsError = True \<rparr>"

datatype go_value = VString string | VOther
  \<comment> \<open>a value of type \<open>interface{}\<close>: a string, or a value of another type\<close>

datatype ctx_error = Canceled | DeadlineExceeded

text \<open>
  What the host gives back when a child process has run: the two captured streams, the
  error of \<open>cmd.Run\<close> (its text; \<open>None\<close> is \<open>nil\<close>) and \<open>cmdCtx.Err()\<close> at that time.
\<close>

record proc_result =
  stdout :: string
  stderr :: string
  run_err :: "string option"
  ctx_err :: "ctx_error option"

record child =
  argv :: "string list"
  dir :: string
  deadline :: int

text \<open>
  The host of an invocation: the result of \<open>os.Getwd\<close>, \<open>runtime.GOOS\<close>, the run of a child
  process under a deadline, and the text that \<open>%v\<close> prints for a \<open>time.Duration\<close>.
\<close>

record host =
  Getwd :: "string + string"
  GOOS :: string
  Run :: "child \<Rightarrow> proc_result"
  duration_text :: "int \<Rightarrow> string"

fun show_nat :: "nat \<Rightarrow> string" where
  \<comment> \<open>\<open>%d\<close> of a number that is not negative\<close>
  "show_nat n =
     (if n < 10 then [char_of (48 + n)] else show_nat (n div 10) @ [char_of (48 + n mod 10)])"

declare show_nat.simps [simp del]

definition maxLen :: nat where
  "maxLen = 10000"

definition truncate_output :: "string \<Rightarrow> string" where
  "truncate_output output =
     (if length output > maxLen
      then take maxLen output @ ''\<newline>... (truncated, '' @ show_nat (length output - maxLen)
             @ '' more chars)''
      else output)"

definition effective_cwd :: "host \<Rightarrow> ExecTool \<Rightarrow> (string \<rightharpoonup> go_value) \<Rightarrow> string" where
  "effective_cwd h t args =
     (let cwd = (case args ''working_dir'' of
                   Some (VString wd) \<Rightarrow> if wd \<noteq> [] then wd else workingDir t
                 | _ \<Rightarrow> workingDir t)
      in if cwd = [] then (case Getwd h of Inr wd \<Rightarrow> wd | Inl err \<Rightarrow> cwd) else cwd)"

definition shell_argv :: "host \<Rightarrow> string \<Rightarrow> string list" where
  "shell_argv h command =
     (if GOOS h = ''windows''
      then [''powershell'', ''-NoProfile'', ''-NonInteractive'', ''-Command'', command]
      else [''sh'', ''-c'', command])"

definition CommandContext :: "host \<Rightarrow> ExecTool \<Rightarrow> string \<Rightarrow> string \<Rightarrow> child" where
  \<comment> \<open>the command of the host's shell, bound to the timeout, with \<open>cmd.Dir\<close> set\<close>
  "CommandContext h t command cwd =
     \<lparr> argv = shell_argv h command, dir = cwd, deadline = timeout t \<rparr>"

definition combined_output :: "proc_result \<Rightarrow> string" where
  "combined_output r =
     stdout r @ (if length (stderr r) > 0 then ''\<newline>STDERR:\<newline>'' @ stderr r else [])"

text \<open>
  \<open>Execute\<close> returns its result and the child processes that it has spawned, in order.
\<close>

definition Execute ::
  "host \<Rightarrow> filepath \<Rightarrow> ExecTool \<Rightarrow> (string \<rightharpoonup> go_value) \<Rightarrow> ToolResult \<times> child list" where
  "Execute h fp t args =
     (case args ''command'' of
        Some (VString command) \<Rightarrow>
          (let cwd = effective_cwd h t args;
               guardError = guardCommand fp t command cwd
           in if guardError \<noteq> [] then (ErrorResult guardError, [])
              else
                (let cmd = CommandContext h t command cwd;
                     r = Run h cmd;
                     output = combined_output r
                 in case run_err r of
                      Some err \<Rightarrow>
                        if ctx_err r = Some DeadlineExceeded
                        then (let msg = ''Command timed out after '' @ duration_text h (timeout t)
                              in (\<lparr> ForLLM = msg, ForUser = msg, IsError = True \<rparr>, [cmd]))
                        else
                          (let output1 = output @ ''\<newline>Exit code: '' @ err;
                               output2 = (if output1 = [] then ''(no output)'' else output1);
                               output3 = truncate_output output2
                           in (\<lparr> ForLLM = output3, ForUser = output3, IsError = True \<rparr>, [cmd]))
                    | None \<Rightarrow>
                        (let output2 = (if output = [] then ''(no output)'' else output);
                             output3 = truncate_output output2
                         in (\<lparr> ForLLM = output3, ForUser = output3, IsError = False \<rparr>, [cmd]))))
      | _ \<Rightarrow> (ErrorResult ''command is required'', []))"

text \<open>
  \<open>regexp.Compile\<close> is a parameter of \<open>SetAllowPatterns\<close>: \<open>Inl\<close> is the error of a pattern
  that does not compile. The result is the error (if any) and the tool as the call leaves
  it: the field is assigned before the loop, and each compiled pattern is appended to it.
\<close>

datatype config_error = InvalidAllowPattern string string
  \<comment> \<open>\<open>fmt.Errorf("invalid allow pattern %q: %w", p, err)\<close>: the pattern and the cause\<close>

fun compile_loop ::
  "(string \<Rightarrow> string + re) \<Rightarrow> ExecTool \<Rightarrow> string list \<Rightarrow> config_error option \<times> ExecTool" where
  "compile_loop compile t [] = (None, t)"
| "compile_loop compile t (p # patterns) =
     (case compile p of
        Inl err \<Rightarrow> (Some (InvalidAllowPattern p err), t)
      | Inr re \<Rightarrow> compile_loop compile (t\<lparr>allowPatterns := allowPatterns t @ [re]\<rparr>) patterns)"

definition SetAllowPatterns ::
  "(string \<Rightarrow> string + re) \<Rightarrow> ExecTool \<Rightarrow> string list \<Rightarrow> config_error option \<times> ExecTool" where
  "SetAllowPatterns compile t patterns = compile_loop compile (t\<lparr>allowPatterns := []\<rparr>) patterns"

section \<open>Package path/filepath on a POSIX host\<close>

text \<open>
  The examples need the results of \<open>filepath.Abs\<close> and \<open>filepath.Rel\<close> at concrete paths.
  This is their documented behaviour where the separator is the slash: \<open>Clean\<close> drops
  empty and \<open>.\<close> elements, resolves \<open>..\<close> against the element before it and drops it at
  the root; \<open>Abs\<close> joins a relative path to the directory of the process; \<open>Rel\<close> strips
  the common leading elements and climbs out of what is left of the base.
\<close>

fun split_slash :: "string \<Rightarrow> string list" where
  "split_slash [] = [[]]"
| "split_slash (c # cs) =
     (if c = CHR ''/'' then [] # split_slash cs
      else (case split_slash cs of
              [] \<Rightarrow> [[c]]
            | w # ws \<Rightarrow> (c # w) # ws))"

fun join_slash :: "string list \<Rightarrow> string" where
  "join_slash [] = []"
| "join_slash [w] = w"
| "join_slash (w # ws) = w @ ''/'' @ join_slash ws"

fun clean_elems :: "bool \<Rightarrow> string list \<Rightarrow> string list \<Rightarrow> string list" where
  \<comment> \<open>\<open>out\<close> holds the elements kept so far, the last one first\<close>
  "clean_elems rooted out [] = rev out"
| "clean_elems rooted out (e # es) =
     (if e = [] \<or> e = ''.'' then clean_elems rooted out es
      else if e = ''..'' then
        (case out of
           [] \<Rightarrow> if rooted then clean_elems rooted [] es else clean_elems rooted [e] es
         | d # out' \<Rightarrow>
             if d = ''..'' then clean_elems rooted (e # out) es
             else clean_elems rooted out' es)
      else clean_elems rooted (e # out) es)"

definition IsAbs :: "string \<Rightarrow> bool" where
  "IsAbs path = HasPrefix path ''/''"

definition Clean :: "string \<Rightarrow> string" where
  "Clean path =
     (let body = join_slash (clean_elems (IsAbs path) [] (split_slash path)) in
      if IsAbs path then ''/'' @ body else if body = [] then ''.'' else body)"

definition posix_Abs :: "string + string \<Rightarrow> string \<Rightarrow> string + string" where
  \<comment> \<open>\<open>wd\<close> is the result of \<open>os.Getwd\<close>\<close>
  "posix_Abs wd path =
     (if IsAbs path then Inr (Clean path)
      else (case wd of
              Inl err \<Rightarrow> Inl err
            | Inr d \<Rightarrow> Inr (Clean (if path = [] then d else d @ ''/'' @ path))))"

fun strip_common :: "string list \<Rightarrow> string list \<Rightarrow> string list \<times> string list" where
  "strip_common (b # bs) (t # ts) = (if b = t then strip_common bs ts else (b # bs, t # ts))"
| "strip_common bs ts = (bs, ts)"

definition elems :: "string \<Rightarrow> string list" where
  "elems path = filter (\<lambda>e. e \<noteq> []) (split_slash path)"

definition posix_Rel :: "string \<Rightarrow> string \<Rightarrow> string + string" where
  "posix_Rel basepath targpath =
     (let base = Clean basepath; targ = Clean targpath in
      if targ = base then Inr ''.''
      else if IsAbs base \<noteq> IsAbs targ
      then Inl (''Rel: can't make '' @ targpath @ '' relative to '' @ basepath)
      else
        (case strip_common (if base = ''.'' then [] else elems base) (elems targ) of
           (bs, ts) \<Rightarrow>
             if bs \<noteq> [] \<and> hd bs = ''..''
             then Inl (''Rel: can't make '' @ targpath @ '' relative to '' @ basepath)
             else if bs \<noteq> [] then Inr (join_slash (map (\<lambda>b. ''..'') bs @ ts))
             else Inr (join_slash ts)))"

definition posix :: "string + string \<Rightarrow> filepath" where
  "posix wd = \<lparr> Abs = posix_Abs wd, Rel = posix_Rel \<rparr>"

section \<open>Path tokens in the words of the specification\<close>

text \<open>
  The specification describes a POSIX path token as a slash followed by the text up to the
  next white space or quote character. \<open>spec_path_tokens\<close> reads the command from left
  to right in these words; it is compared below with what \<open>FindAllString\<close> returns for
  \<open>pathPattern\<close>.
\<close>

definition path_char :: "char \<Rightarrow> bool" where
  "path_char c = (\<not> re_space c \<and> c \<notin> {CHR 0x22, CHR 0x27})"

function spec_path_tokens :: "string \<Rightarrow> string list" where
  "spec_path_tokens [] = []"
| "spec_path_tokens (c # cs) =
     (if c = CHR ''/'' \<and> takeWhile path_char cs \<noteq> []
      then (c # takeWhile path_char cs) # spec_path_tokens (dropWhile path_char cs)
      else spec_path_tokens cs)"
  by pat_completeness auto
termination
  by (relation "measure length") (auto simp: length_dropWhile_le less_Suc_eq_le)

section \<open>Example hosts\<close>

text \<open>
  A Linux host whose process runs in \<open>/home/user/project\<close>, where every child process ends
  with the result \<open>r\<close>. The examples keep the default timeout of 60 seconds, which Go
  prints as \<open>1m0s\<close>.
\<close>

definition linux_host :: "proc_result \<Rightarrow> host" where
  "linux_host r =
     \<lparr> Getwd = Inr ''/home/user/project'', GOOS = ''linux'', Run = (\<lambda>cmd. r),
       duration_text = (\<lambda>d. ''1m0s'') \<rparr>"

definition linux_paths :: filepath where
  "linux_paths = posix (Inr ''/home/user/project'')"

definition ok_result :: proc_result where
  "ok_result = \<lparr> stdout = ''ok'', stderr = [], run_err = None, ctx_err = None \<rparr>"

definition timed_out_result :: proc_result where
  \<comment> \<open>a child that is killed at the deadline, after it has written some output\<close>
  "timed_out_result =
     \<lparr> stdout = ''partial'', stderr = ''warn'', run_err = Some ''signal: killed'',
       ctx_err = Some DeadlineExceeded \<rparr>"

definition boom_result :: proc_result where
  \<comment> \<open>a child that prints \<open>boom\<close> on standard error and exits with status 1\<close>
  "boom_result =
     \<lparr> stdout = [], stderr = ''boom'', run_err = Some ''exit status 1'', ctx_err = None \<rparr>"

definition long_boom_result :: proc_result where
  \<comment> \<open>the same, after 10000 bytes on standard output\<close>
  "long_boom_result =
     \<lparr> stdout = replicate 10000 CHR ''a'', stderr = ''boom'', run_err = Some ''exit status 1'',
       ctx_err = None \<rparr>"

section \<open>Properties\<close>

subsection \<open>Helper lemmas\<close>

text \<open>Adding 32 to an upper-case letter sets one bit; evaluation uses this form.\<close>

lemma lower_char_bits [code]:
  "lower_char (Char b0 b1 b2 b3 b4 b5 b6 b7) =
     (if in_range CHR ''A'' CHR ''Z'' (Char b0 b1 b2 b3 b4 b5 b6 b7)
      then Char b0 b1 b2 b3 b4 True b6 b7 else Char b0 b1 b2 b3 b4 b5 b6 b7)"
proof (cases "in_range CHR ''A'' CHR ''Z'' (Char b0 b1 b2 b3 b4 b5 b6 b7)")
  case False
  then show ?thesis by (simp add: lower_char_def)
next
  case True
  then have b: "\<not> b5 \<and> b6 \<and> \<not> b7"
    by (auto simp: in_range_def split: if_splits)
  then have "of_char (Char b0 b1 b2 b3 b4 b5 b6 b7) + (32::nat)
      = of_char (Char b0 b1 b2 b3 b4 True b6 b7)"
    by simp
  then have "char_of (of_char (Char b0 b1 b2 b3 b4 b5 b6 b7) + (32::nat))
      = char_of (of_char (Char b0 b1 b2 b3 b4 True b6 b7) :: nat)"
    by (simp only:)
  then have "char_of (of_char (Char b0 b1 b2 b3 b4 b5 b6 b7) + (32::nat))
      = Char b0 b1 b2 b3 b4 True b6 b7"
    by (simp only: char_of_char)
  with True show ?thesis by (simp only: lower_char_def if_True)
qed

lemma Contains_iff: "Contains s sub \<longleftrightarrow> (\<exists>pre post. s = pre @ sub @ post)"
proof (induction s)
  case Nil
  then show ?case by auto
next
  case (Cons c cs)
  show ?case
  proof
    assume "Contains (c # cs) sub"
    then consider "prefix sub (c # cs)" | "Contains cs sub" by auto
    then show "\<exists>pre post. c # cs = pre @ sub @ post"
    proof cases
      case 1
      then obtain post where "c # cs = sub @ post" by (auto simp: prefix_def)
      then have "c # cs = [] @ sub @ post" by simp
      then show ?thesis by blast
    next
      case 2
      with Cons.IH obtain pre post where "cs = pre @ sub @ post" by blast
      then have "c # cs = (c # pre) @ sub @ post" by simp
      then show ?thesis by blast
    qed
  next
    assume "\<exists>pre post. c # cs = pre @ sub @ post"
    then obtain pre post where eq: "c # cs = pre @ sub @ post" by blast
    show "Contains (c # cs) sub"
    proof (cases pre)
      case Nil
      with eq have "prefix sub (c # cs)" by (simp add: prefix_def)
      then show ?thesis by simp
    next
      case (Cons a pre')
      with eq have "cs = pre' @ sub @ post" by simp
      with Cons.IH have "Contains cs sub" by blast
      then show ?thesis by simp
    qed
  qed
qed

lemma Execute_blocked:
  assumes "args ''command'' = Some (VString command)"
    and "guardCommand fp t command (effective_cwd h t args) \<noteq> []"
  shows "Execute h fp t args
           = (ErrorResult (guardCommand fp t command (effective_cwd h t args)), [])"
  using assms by (simp add: Execute_def Let_def)

lemma Execute_no_command:
  assumes "\<forall>command. args ''command'' \<noteq> Some (VString command)"
  shows "Execute h fp t args = (ErrorResult ''command is required'', [])"
  using assms by (auto simp: Execute_def split: option.splits go_value.splits)

lemma dropWhile_keeps:
  assumes "sub \<noteq> []" and "\<not> P (hd sub)"
  shows "\<exists>pre'. dropWhile P (pre @ sub @ post) = pre' @ sub @ post"
proof (induction pre)
  case Nil
  from assms obtain x xs where "sub = x # xs" and "\<not> P x" by (cases sub) auto
  then have "dropWhile P ([] @ sub @ post) = [] @ sub @ post" by simp
  then show ?case by blast
next
  case (Cons a pre)
  show ?case
  proof (cases "P a")
    case True
    with Cons.IH show ?thesis by simp
  next
    case False
    then have "dropWhile P ((a # pre) @ sub @ post) = (a # pre) @ sub @ post" by simp
    then show ?thesis by blast
  qed
qed

lemma TrimSpace_keeps:
  assumes "sub \<noteq> []" and "\<not> is_space (hd sub)" and "\<not> is_space (last sub)"
    and "Contains s sub"
  shows "Contains (TrimSpace s) sub"
proof -
  from assms(4) obtain pre post where s: "s = pre @ sub @ post"
    by (auto simp: Contains_iff)
  from dropWhile_keeps [of sub is_space pre post] assms(1,2) obtain pre' where
    front: "dropWhile is_space (pre @ sub @ post) = pre' @ sub @ post" by blast
  have "rev sub \<noteq> []" and "\<not> is_space (hd (rev sub))"
    using assms(1,3) by (simp_all add: hd_rev)
  with dropWhile_keeps [of "rev sub" is_space "rev post" "rev pre'"] obtain post' where
    "dropWhile is_space (rev post @ rev sub @ rev pre') = post' @ rev sub @ rev pre'"
    by blast
  then have "TrimSpace s = pre' @ sub @ rev post'"
    by (simp add: TrimSpace_def s front)
  then show ?thesis by (auto simp: Contains_iff)
qed

lemma TrimSpace_inside: "\<exists>pre post. s = pre @ TrimSpace s @ post"
proof -
  define d where "d = dropWhile is_space s"
  have "rev d = takeWhile is_space (rev d) @ dropWhile is_space (rev d)"
    by simp
  then have "rev (rev d) = rev (takeWhile is_space (rev d) @ dropWhile is_space (rev d))"
    by (simp only:)
  then have "d = rev (dropWhile is_space (rev d)) @ rev (takeWhile is_space (rev d))"
    by (simp only: rev_rev_ident rev_append)
  moreover have "s = takeWhile is_space s @ d"
    by (simp add: d_def)
  ultimately have "s = takeWhile is_space s @ TrimSpace s @ rev (takeWhile is_space (rev d))"
    by (simp add: TrimSpace_def d_def)
  then show ?thesis by blast
qed

lemma Contains_TrimSpace:
  assumes "Contains (TrimSpace s) sub"
  shows "Contains s sub"
proof -
  from assms obtain a b where "TrimSpace s = a @ sub @ b"
    by (auto simp: Contains_iff)
  moreover obtain pre post where "s = pre @ TrimSpace s @ post"
    using TrimSpace_inside by blast
  ultimately have "s = (pre @ a) @ sub @ (b @ post)" by simp
  then show ?thesis unfolding Contains_iff by blast
qed

lemma check_paths_none:
  assumes "\<forall>raw \<in> set matches. \<forall>p rel.
      Abs fp raw = Inr p \<and> Rel fp cwdPath p = Inr rel \<longrightarrow> \<not> HasPrefix rel ''..''"
  shows "check_paths fp cwdPath matches = []"
  using assms by (induction matches) (auto split: sum.splits)

lemma check_paths_some:
  assumes "raw \<in> set matches" and "Abs fp raw = Inr p" and "Rel fp cwdPath p = Inr rel"
    and "HasPrefix rel ''..''"
  shows "check_paths fp cwdPath matches
           = ''Command blocked by safety guard (path outside working dir)''"
  using assms by (induction matches) (auto split: sum.splits)

lemma Execute_timed_out:
  assumes "args ''command'' = Some (VString command)"
    and "guardCommand fp t command (effective_cwd h t args) = []"
    and "run_err (Run h (CommandContext h t command (effective_cwd h t args))) = Some err"
    and "ctx_err (Run h (CommandContext h t command (effective_cwd h t args)))
           = Some DeadlineExceeded"
  shows "Execute h fp t args
           = (\<lparr> ForLLM = ''Command timed out after '' @ duration_text h (timeout t),
                 ForUser = ''Command timed out after '' @ duration_text h (timeout t),
                 IsError = True \<rparr>,
              [CommandContext h t command (effective_cwd h t args)])"
  using assms by (simp add: Execute_def Let_def)

lemma Execute_failed:
  assumes "args ''command'' = Some (VString command)"
    and "guardCommand fp t command (effective_cwd h t args) = []"
    and "run_err (Run h (CommandContext h t command (effective_cwd h t args))) = Some err"
    and "ctx_err (Run h (CommandContext h t command (effective_cwd h t args)))
           \<noteq> Some DeadlineExceeded"
  shows "Execute h fp t args
           = (\<lparr> ForLLM = truncate_output
                   (combined_output (Run h (CommandContext h t command (effective_cwd h t args)))
                      @ ''\<newline>Exit code: '' @ err),
                 ForUser = truncate_output
                   (combined_output (Run h (CommandContext h t command (effective_cwd h t args)))
                      @ ''\<newline>Exit code: '' @ err),
                 IsError = True \<rparr>,
              [CommandContext h t command (effective_cwd h t args)])"
  using assms by (simp add: Execute_def Let_def)

lemma newline_in_truncate_output:
  assumes "CHR ''\<newline>'' \<in> set s"
  shows "CHR ''\<newline>'' \<in> set (truncate_output s)"
  using assms by (simp add: truncate_output_def)

lemma Contains_replicate_append:
  assumes "sub \<noteq> []" and "hd sub \<noteq> a"
  shows "Contains (replicate n a @ s) sub = Contains s sub"
proof (induction n)
  case 0
  show ?case by simp
next
  case (Suc n)
  from assms have "\<not> prefix sub (a # replicate n a @ s)"
    by (cases sub) auto
  with Suc show ?case by simp
qed

text \<open>A match that starts after the bytes \<open>pre\<close> is found by the search.\<close>

lemma search_at:
  assumes "rmatch r (if pre = [] then p else Some (last pre), suf) \<noteq> []"
  shows "search r p (pre @ suf)"
  using assms
proof (induction pre arbitrary: p)
  case Nil
  then show ?case by (cases suf) auto
next
  case (Cons a pre)
  have "search r (Some a) (pre @ suf)"
  proof (rule Cons.IH)
    from Cons.prems show "rmatch r (if pre = [] then Some a else Some (last pre), suf) \<noteq> []"
      by (cases pre) auto
  qed
  then show ?case by simp
qed

lemma deny_rm_short:
  assumes "\<not> word_before (p, ''rm -rf'' @ post)"
  shows "rmatch deny_rm (p, ''rm -rf'' @ post) \<noteq> []"
  using assms
  by (simp add: deny_rm_def seqs_def alts_def lit_i_def Plus_def Rep12_def word_after_def
      is_word_def in_range_def lower_char_def re_space_def)

lemma deny_rm_split:
  assumes "\<not> word_before (p, ''rm -r -f'' @ post)"
  shows "rmatch deny_rm (p, ''rm -r -f'' @ post) \<noteq> []"
  using assms
  by (simp add: deny_rm_def seqs_def alts_def lit_i_def Plus_def Rep12_def word_after_def
      is_word_def in_range_def lower_char_def re_space_def)

lemma deny_rm_long:
  assumes "\<not> word_before (p, ''rm --recursive --force'' @ post)"
  shows "rmatch deny_rm (p, ''rm --recursive --force'' @ post) \<noteq> []"
  using assms
  by (simp add: deny_rm_def seqs_def alts_def lit_i_def Plus_def Rep12_def word_after_def
      is_word_def in_range_def lower_char_def re_space_def)

text \<open>The path pattern: what its two alternatives match, and the tokens it finds.\<close>

lemma star_Chr:
  "length s \<le> n \<Longrightarrow> star_from (rmatch (Chr P)) n (p, s) \<noteq> []
     \<and> snd (hd (star_from (rmatch (Chr P)) n (p, s))) = dropWhile P s"
proof (induction n arbitrary: p s)
  case 0
  then show ?case by simp
next
  case (Suc n)
  show ?case
  proof (cases s)
    case Nil
    then show ?thesis by simp
  next
    case (Cons x xs)
    with Suc.prems have "length xs \<le> n" by simp
    from Suc.IH [OF this, of "Some x"] Cons show ?thesis by simp
  qed
qed

lemma Plus_Chr_empty: "rmatch (Plus (Chr P)) (p, s) = [] \<longleftrightarrow> takeWhile P s = []"
  using star_Chr [of "tl s" "length (tl s)" P "Some (hd s)"]
  by (cases s) (simp_all add: Plus_def)

lemma Plus_Chr_hd:
  "rmatch (Plus (Chr P)) (p, s) \<noteq> [] \<Longrightarrow> snd (hd (rmatch (Plus (Chr P)) (p, s))) = dropWhile P s"
  using star_Chr [of "tl s" "length (tl s)" P "Some (hd s)"]
  by (cases s) (simp_all add: Plus_def split: if_splits)

lemma concat_map_Eps: "concat (map (rmatch Eps) cs) = cs"
  by (induction cs) simp_all

lemma rmatch_Seq_Eps: "rmatch (Seq r Eps) c = rmatch r c"
  by (simp add: concat_map_Eps)

lemma path_class: "(\<lambda>c. \<not> re_space c \<and> c \<noteq> CHR 0x22 \<and> c \<noteq> CHR 0x27) = path_char"
  by (simp add: fun_eq_iff path_char_def)

lemma posix_alt_match:
  "rmatch posix_alt (p, s) = (case s of [] \<Rightarrow> [] | x # xs \<Rightarrow>
      if x = CHR ''/'' then rmatch (Plus (Chr path_char)) (Some x, xs) else [])"
  by (cases s) (simp_all add: posix_alt_def seqs_def lit_def path_class concat_map_Eps)

lemma win_alt_match:
  "rmatch win_alt (p, s) \<noteq> [] \<Longrightarrow> \<exists>l rest. s = l # CHR '':'' # CHR 0x5C # rest"
  by (auto simp: win_alt_def seqs_def lit_def split: list.splits if_splits)

lemma Contains_Cons: "\<not> Contains (x # xs) sub \<Longrightarrow> \<not> Contains xs sub"
  by simp

lemma find_all_path:
  assumes "\<not> Contains s [CHR '':'', CHR 0x5C]" and "k \<le> length s"
  shows "find_all pathPattern k ab p s = spec_path_tokens (drop k s)"
  using assms
proof (induction s arbitrary: k ab p)
  case Nil
  then show ?case
    by (simp add: pathPattern_def posix_alt_match win_alt_def seqs_def)
next
  case (Cons x xs)
  from Cons.prems(1) have nc: "\<not> Contains xs [CHR '':'', CHR 0x5C]" by simp
  show ?case
  proof (cases k)
    case (Suc k')
    with Cons.prems(2) have "k' \<le> length xs" by simp
    from Cons.IH [OF nc this] Suc show ?thesis by simp
  next
    case 0
    have win: "rmatch win_alt (p, x # xs) = []"
    proof (rule ccontr)
      assume "rmatch win_alt (p, x # xs) \<noteq> []"
      then obtain l rest where "x # xs = l # CHR '':'' # CHR 0x5C # rest"
        using win_alt_match by blast
      then have "x # xs = [l] @ [CHR '':'', CHR 0x5C] @ rest" by simp
      then have "Contains (x # xs) [CHR '':'', CHR 0x5C]"
        unfolding Contains_iff by blast
      with Cons.prems(1) show False by contradiction
    qed
    show ?thesis
    proof (cases "x = CHR ''/'' \<and> takeWhile path_char xs \<noteq> []")
      case False
      then have "rmatch pathPattern (p, x # xs) = []"
        by (auto simp: pathPattern_def win posix_alt_match Plus_Chr_empty)
      moreover from Cons.IH [OF nc, of 0 False "Some x"]
      have "find_all pathPattern 0 False (Some x) xs = spec_path_tokens xs" by simp
      ultimately show ?thesis using False 0 by auto
    next
      case True
      let ?m = "rmatch (Plus (Chr path_char)) (Some x, xs)"
      from True have ne: "?m \<noteq> []" by (simp add: Plus_Chr_empty)
      then obtain c cs where m: "?m = c # cs" by (cases ?m) auto
      with Plus_Chr_hd [OF ne] have c: "snd c = dropWhile path_char xs" by simp
      have r: "rmatch pathPattern (p, x # xs) = c # cs"
        using True m win by (simp add: pathPattern_def posix_alt_match)
      have len: "length xs = length (takeWhile path_char xs) + length (dropWhile path_char xs)"
        by (metis length_append takeWhile_dropWhile_id)
      then have n: "length (x # xs) - length (snd c) = Suc (length (takeWhile path_char xs))"
        by (simp add: c)
      have tk: "take (length (takeWhile path_char xs)) xs = takeWhile path_char xs"
        by (simp add: takeWhile_eq_take [symmetric])
      have "length (takeWhile path_char xs) \<le> length xs"
        using len by simp
      from Cons.IH [OF nc this, of True "Some x"]
      have "find_all pathPattern (length (takeWhile path_char xs)) True (Some x) xs
          = spec_path_tokens (dropWhile path_char xs)"
        by (simp add: dropWhile_eq_drop [symmetric])
      with True 0 r n tk show ?thesis by (simp add: Let_def)
    qed
  qed
qed

lemma FindAllString_path:
  assumes "\<not> Contains s [CHR '':'', CHR 0x5C]"
  shows "FindAllString pathPattern s = spec_path_tokens s"
  using find_all_path [OF assms, of 0 False None] by (simp add: FindAllString_def)

lemma guardCommand_sequence_blocked:
  assumes "restrictToWorkspace t"
    and "sq \<in> {''../'', [CHR ''.'', CHR ''.'', CHR 0x5C], ''%2e%2e%2f'', ''%2e%2e/'',
                 ''..%2f'', ''%2e%2e%5c'', [CHR 0x00], ''%00''}"
    and "Contains command sq"
  shows "guardCommand fp t command cwd \<noteq> []"
proof -
  have "sq \<noteq> [] \<and> \<not> is_space (hd sq) \<and> \<not> is_space (last sq)"
    using assms(2) by (auto simp: is_space_def)
  with assms(3) have c: "Contains (TrimSpace command) sq"
    by (simp add: TrimSpace_keeps)
  show ?thesis
    using assms(1,2) c by (auto simp: guardCommand_def Let_def)
qed

lemma check_paths_iff:
  "check_paths fp cwdPath matches
     = (if \<exists>raw \<in> set matches. \<exists>p rel.
             Abs fp raw = Inr p \<and> Rel fp cwdPath p = Inr rel \<and> HasPrefix rel ''..''
        then ''Command blocked by safety guard (path outside working dir)'' else [])"
proof (cases "\<exists>raw \<in> set matches. \<exists>p rel.
    Abs fp raw = Inr p \<and> Rel fp cwdPath p = Inr rel \<and> HasPrefix rel ''..''")
  case True
  then obtain raw p rel where "raw \<in> set matches" "Abs fp raw = Inr p"
    "Rel fp cwdPath p = Inr rel" "HasPrefix rel ''..''"
    by blast
  then have "check_paths fp cwdPath matches
      = ''Command blocked by safety guard (path outside working dir)''"
    by (rule check_paths_some)
  with True show ?thesis by (simp only: if_True)
next
  case False
  then have "check_paths fp cwdPath matches = []"
    by (intro check_paths_none) blast
  with False show ?thesis by (simp only: if_False)
qed

text \<open>
  The count that bounds the iterations of a star never cuts a match short: every iteration
  that is followed takes at least one byte, so a larger count gives the same result.
\<close>

lemma star_from_shorter:
  "c' \<in> set (star_from f n c) \<Longrightarrow> length (snd c') \<le> length (snd c)"
proof (induction n arbitrary: c)
  case 0
  then show ?case by simp
next
  case (Suc n)
  from Suc.prems consider "c' = c"
    | d where "d \<in> set (f c)" "length (snd d) < length (snd c)" "c' \<in> set (star_from f n d)"
    by (auto split: if_splits)
  then show ?case
  proof cases
    case 1
    then show ?thesis by simp
  next
    case 2
    from Suc.IH [OF 2(3)] 2(2) show ?thesis by simp
  qed
qed

lemma star_from_fuel:
  "length (snd c) \<le> n \<Longrightarrow> star_from f (Suc n) c = star_from f n c"
proof (induction n arbitrary: c)
  case 0
  then have "map (\<lambda>c'. if length (snd c') < length (snd c) then star_from f 0 c' else []) (f c)
      = map (\<lambda>c'. []) (f c)"
    by simp
  then show ?case by simp
next
  case (Suc n)
  have "(if length (snd d) < length (snd c) then star_from f (Suc n) d else [])
      = (if length (snd d) < length (snd c) then star_from f n d else [])" for d
    using Suc.IH [of d] Suc.prems by simp
  then show ?case by simp
qed

lemma star_from_enough:
  "length (snd c) \<le> n \<Longrightarrow> star_from f n c = star_from f (length (snd c)) c"
proof (induction n)
  case 0
  then show ?case by simp
next
  case (Suc n)
  show ?case
  proof (cases "length (snd c) \<le> n")
    case True
    with Suc.IH star_from_fuel [OF True, of f] show ?thesis by simp
  next
    case False
    with Suc.prems have "length (snd c) = Suc n" by simp
    then show ?thesis by simp
  qed
qed

lemma rmatch_shorter:
  "c' \<in> set (rmatch r c) \<Longrightarrow> length (snd c') \<le> length (snd c)"
proof (induction r arbitrary: c c')
  case (Chr P)
  then show ?case by (cases c; cases "snd c") (auto split: if_splits)
next
  case (Seq a b)
  from Seq.prems obtain d where "d \<in> set (rmatch a c)" "c' \<in> set (rmatch b d)"
    by auto
  with Seq.IH show ?case by (meson le_trans)
next
  case (Alt a b)
  from Alt.prems have "c' \<in> set (rmatch a c) \<or> c' \<in> set (rmatch b c)" by simp
  with Alt.IH show ?case by blast
next
  case (Star a)
  then show ?case by (simp add: star_from_shorter)
qed (auto split: if_splits)

lemma rmatch_Star_bound:
  assumes "length (snd c) \<le> n"
  shows "rmatch (Star a) c = star_from (rmatch a) n c"
  using star_from_enough [OF assms, of "rmatch a"] by simp


text \<open>What \<open>SetAllowPatterns\<close> leaves in the tool, when a pattern fails and when none does.\<close>

lemma compile_loop_fails:
  assumes "map compile ps = map Inr rs" and "compile p = Inl err"
  shows "compile_loop compile t (ps @ p # qs)
           = (Some (InvalidAllowPattern p err), t\<lparr>allowPatterns := allowPatterns t @ rs\<rparr>)"
  using assms(1)
proof (induction ps arbitrary: t rs)
  case Nil
  with assms(2) show ?case by simp
next
  case (Cons a ps)
  then obtain r rs' where rs: "rs = r # rs'" "compile a = Inr r" "map compile ps = map Inr rs'"
    by (cases rs) auto
  from Cons.IH [OF rs(3)] rs(1,2) show ?case by simp
qed

lemma compile_loop_succeeds:
  assumes "map compile ps = map Inr rs"
  shows "compile_loop compile t ps = (None, t\<lparr>allowPatterns := allowPatterns t @ rs\<rparr>)"
  using assms
proof (induction ps arbitrary: t rs)
  case Nil
  then show ?case by simp
next
  case (Cons a ps)
  then obtain r rs' where rs: "rs = r # rs'" "compile a = Inr r" "map compile ps = map Inr rs'"
    by (cases rs) auto
  from Cons.IH [OF rs(3)] rs(1,2) show ?case by simp
qed

lemma SetAllowPatterns_fails:
  assumes "map compile ps = map Inr rs" and "compile p = Inl err"
  shows "SetAllowPatterns compile t (ps @ p # qs)
           = (Some (InvalidAllowPattern p err), t\<lparr>allowPatterns := rs\<rparr>)"
  using compile_loop_fails [OF assms, of "t\<lparr>allowPatterns := []\<rparr>" qs]
  by (simp add: SetAllowPatterns_def)

lemma SetAllowPatterns_succeeds:
  assumes "map compile ps = map Inr rs"
  shows "SetAllowPatterns compile t ps = (None, t\<lparr>allowPatterns := rs\<rparr>)"
  using compile_loop_succeeds [OF assms, of "t\<lparr>allowPatterns := []\<rparr>"]
  by (simp add: SetAllowPatterns_def)

subsection \<open>Blocked commands spawn nothing\<close>

text \<open>
  C1. Whenever \<open>guardCommand\<close> blocks the command of an invocation (it returns a reason,
  from a deny pattern, the allow list or the workspace confinement), \<open>Execute\<close> returns the
  error result that carries this reason, with the error flag set, and the list of the child
  processes it has spawned is empty.
\<close>

theorem Execute_blocked_spawns_nothing:
  assumes "args ''command'' = Some (VString command)"
    and "guardCommand fp t command (effective_cwd h t args) \<noteq> []"
  shows "fst (Execute h fp t args)
           = ErrorResult (guardCommand fp t command (effective_cwd h t args))
         \<and> IsError (fst (Execute h fp t args))
         \<and> snd (Execute h fp t args) = []"
  using Execute_blocked [OF assms] by (simp add: ErrorResult_def)

theorem Execute_blocked_spawns_nothing_witness:
  "[''command'' \<mapsto> VString ''rm -rf /''] ''command'' = Some (VString ''rm -rf /'')
   \<and> guardCommand linux_paths (NewExecTool [] False) ''rm -rf /''
         (effective_cwd (linux_host ok_result) (NewExecTool [] False)
            [''command'' \<mapsto> VString ''rm -rf /'']) \<noteq> []
   \<and> IsError (fst (Execute (linux_host ok_result) linux_paths (NewExecTool [] False)
         [''command'' \<mapsto> VString ''rm -rf /'']))
   \<and> snd (Execute (linux_host ok_result) linux_paths (NewExecTool [] False)
         [''command'' \<mapsto> VString ''rm -rf /'']) = []"
proof -
  have a: "[''command'' \<mapsto> VString ''rm -rf /''] ''command'' = Some (VString ''rm -rf /'')"
    by simp
  have g: "guardCommand linux_paths (NewExecTool [] False) ''rm -rf /''
         (effective_cwd (linux_host ok_result) (NewExecTool [] False)
            [''command'' \<mapsto> VString ''rm -rf /'']) \<noteq> []"
    by code_simp
  from Execute_blocked_spawns_nothing [OF a g] a g show ?thesis by blast
qed

subsection \<open>Deny patterns come first\<close>

text \<open>
  C2. For every command and every configuration of the tool: if the trimmed, lower-cased
  command matches one of the deny patterns, \<open>guardCommand\<close> returns the reason
  "dangerous pattern detected", whatever the allow patterns are and whether or not the
  command matches one of them.
\<close>

theorem guardCommand_deny_first:
  assumes "p \<in> set (denyPatterns t)"
    and "MatchString p (ToLower (TrimSpace command))"
  shows "guardCommand fp t command cwd
           = ''Command blocked by safety guard (dangerous pattern detected)''"
proof -
  from assms have "list_ex (\<lambda>pattern. MatchString pattern (ToLower (TrimSpace command)))
      (denyPatterns t)"
    by (auto simp: list_ex_iff)
  then show ?thesis by (simp add: guardCommand_def Let_def)
qed

theorem guardCommand_deny_first_witness:
  "deny_rm \<in> set (denyPatterns (NewExecTool [] False\<lparr>allowPatterns := [lit ''rm'']\<rparr>))
   \<and> MatchString deny_rm (ToLower (TrimSpace ''RM -rf /tmp/x''))
   \<and> MatchString (lit ''rm'') (ToLower (TrimSpace ''RM -rf /tmp/x''))
   \<and> guardCommand linux_paths (NewExecTool [] False\<lparr>allowPatterns := [lit ''rm'']\<rparr>)
         ''RM -rf /tmp/x'' ''/tmp''
       = ''Command blocked by safety guard (dangerous pattern detected)''"
proof -
  have a: "deny_rm \<in> set (denyPatterns (NewExecTool [] False\<lparr>allowPatterns := [lit ''rm'']\<rparr>))"
    by (simp add: NewExecTool_def)
  have m: "MatchString deny_rm (ToLower (TrimSpace ''RM -rf /tmp/x''))"
    by code_simp
  have m': "MatchString (lit ''rm'') (ToLower (TrimSpace ''RM -rf /tmp/x''))"
    by code_simp
  from guardCommand_deny_first [OF a m] a m m' show ?thesis by blast
qed

subsection \<open>Recursive forced delete\<close>

text \<open>
  C3, as amended. Take a tool that has the first deny pattern of \<open>NewExecTool\<close>, and a
  command whose trimmed, lower-cased text (so the command in any letter casing) contains
  \<open>rm -rf\<close>, \<open>rm -r -f\<close> or \<open>rm --recursive --force\<close> at the start of the text or right
  after a byte that is not a letter, a digit or an underscore. Then \<open>guardCommand\<close> blocks
  the command, whatever the rest of the text is.
\<close>

theorem guardCommand_blocks_rm:
  assumes "deny_rm \<in> set (denyPatterns t)"
    and "w \<in> {''rm -rf'', ''rm -r -f'', ''rm --recursive --force''}"
    and "ToLower (TrimSpace command) = pre @ w @ post"
    and "pre = [] \<or> \<not> is_word (last pre)"
  shows "guardCommand fp t command cwd
           = ''Command blocked by safety guard (dangerous pattern detected)''"
proof -
  let ?c = "(if pre = [] then None else Some (last pre), w @ post)"
  from assms(4) have b: "\<not> word_before ?c"
    by (auto simp: word_before_def)
  from assms(2) consider "w = ''rm -rf''" | "w = ''rm -r -f''" | "w = ''rm --recursive --force''"
    by auto
  then have "rmatch deny_rm ?c \<noteq> []"
  proof cases
    case 1
    with b show ?thesis using deny_rm_short [of "if pre = [] then None else Some (last pre)" post]
      by (simp add: word_before_def)
  next
    case 2
    with b show ?thesis using deny_rm_split [of "if pre = [] then None else Some (last pre)" post]
      by (simp add: word_before_def)
  next
    case 3
    with b show ?thesis using deny_rm_long [of "if pre = [] then None else Some (last pre)" post]
      by (simp add: word_before_def)
  qed
  then have "search deny_rm None (pre @ w @ post)"
    by (rule search_at)
  then have "MatchString deny_rm (ToLower (TrimSpace command))"
    by (simp add: MatchString_def assms(3))
  with assms(1) have "list_ex (\<lambda>pattern. MatchString pattern (ToLower (TrimSpace command)))
      (denyPatterns t)"
    by (auto simp: list_ex_iff)
  then show ?thesis by (simp add: guardCommand_def Let_def)
qed

theorem guardCommand_blocks_rm_witness:
  "deny_rm \<in> set (denyPatterns (NewExecTool ''/home/user/project'' False))
   \<and> ToLower (TrimSpace ''cd build; RM -Rf .'') = ''cd build; '' @ ''rm -rf'' @ '' .''
   \<and> \<not> is_word (last ''cd build; '')
   \<and> guardCommand linux_paths (NewExecTool ''/home/user/project'' False) ''cd build; RM -Rf .''
         ''/home/user/project''
       = ''Command blocked by safety guard (dangerous pattern detected)''"
proof -
  have d: "deny_rm \<in> set (denyPatterns (NewExecTool ''/home/user/project'' False))"
    by (simp add: NewExecTool_def)
  have w: "''rm -rf'' \<in> {''rm -rf'', ''rm -r -f'', ''rm --recursive --force''}"
    by simp
  have l: "ToLower (TrimSpace ''cd build; RM -Rf .'') = ''cd build; '' @ ''rm -rf'' @ '' .''"
    by code_simp
  have n: "\<not> is_word (last ''cd build; '')"
    by code_simp
  then have b: "''cd build; '' = [] \<or> \<not> is_word (last ''cd build; '')"
    by (rule disjI2)
  from guardCommand_blocks_rm [OF d w l b] d l n show ?thesis by (intro conjI)
qed

text \<open>
  The claim as it is written fails when a letter stands right before \<open>rm\<close>: the pattern
  begins with \<open>\b\<close>, and there is no word boundary inside \<open>confirm\<close>.
\<close>

theorem guardCommand_blocks_rm_counterexample:
  "Contains ''confirm -rf build'' ''rm -rf''
   \<and> guardCommand linux_paths (NewExecTool ''/home/user/project'' False) ''confirm -rf build''
         ''/home/user/project'' = []
   \<and> guardCommand linux_paths (NewExecTool ''/home/user/project'' True) ''confirm -rf build''
         ''/home/user/project'' = []"
proof -
  have "Contains ''confirm -rf build'' ''rm -rf''"
    by code_simp
  moreover have "guardCommand linux_paths (NewExecTool ''/home/user/project'' False)
      ''confirm -rf build'' ''/home/user/project'' = []"
    by code_simp
  moreover have "guardCommand linux_paths (NewExecTool ''/home/user/project'' True)
      ''confirm -rf build'' ''/home/user/project'' = []"
    by code_simp
  ultimately show ?thesis by (intro conjI)
qed

subsection \<open>Traversal sequences and null bytes\<close>

text \<open>
  C4. When \<open>restrictToWorkspace\<close> is set, every command that contains \<open>../\<close>, \<open>..\\<close>,
  \<open>%2e%2e%2f\<close>, \<open>%2e%2e/\<close>, \<open>..%2f\<close>, \<open>%2e%2e%5c\<close>, the byte 0 or \<open>%00\<close> anywhere in its
  text is blocked by \<open>guardCommand\<close>, whatever the patterns and the working directory are;
  an invocation of \<open>Execute\<close> with that command returns an error and spawns no process.
\<close>

theorem guardCommand_blocks_traversal:
  assumes "restrictToWorkspace t"
    and "sq \<in> {''../'', [CHR ''.'', CHR ''.'', CHR 0x5C], ''%2e%2e%2f'', ''%2e%2e/'',
                 ''..%2f'', ''%2e%2e%5c'', [CHR 0x00], ''%00''}"
    and "Contains command sq"
  shows "guardCommand fp t command cwd \<noteq> []
         \<and> (\<forall>h args. args ''command'' = Some (VString command) \<longrightarrow>
               IsError (fst (Execute h fp t args)) \<and> snd (Execute h fp t args) = [])"
proof -
  have blocked: "guardCommand fp t command d \<noteq> []" for d
    using assms by (rule guardCommand_sequence_blocked)
  have "IsError (fst (Execute h fp t args)) \<and> snd (Execute h fp t args) = []"
    if "args ''command'' = Some (VString command)" for h args
    using Execute_blocked [of args command fp t h] that blocked by (simp add: ErrorResult_def)
  with blocked show ?thesis by blast
qed

theorem guardCommand_blocks_traversal_witness:
  "restrictToWorkspace (NewExecTool ''/home/user/project'' True)
   \<and> Contains ''cat docs/%2e%2e%2fsecret'' ''%2e%2e%2f''
   \<and> guardCommand linux_paths (NewExecTool ''/home/user/project'' True)
         ''cat docs/%2e%2e%2fsecret'' ''/home/user/project''
       = ''Command blocked by safety guard (URL-encoded path traversal detected)''
   \<and> snd (Execute (linux_host ok_result) linux_paths (NewExecTool ''/home/user/project'' True)
         [''command'' \<mapsto> VString ''cat docs/%2e%2e%2fsecret'']) = []"
proof -
  have r: "restrictToWorkspace (NewExecTool ''/home/user/project'' True)"
    by (simp add: NewExecTool_def)
  have m: "''%2e%2e%2f'' \<in> {''../'', [CHR ''.'', CHR ''.'', CHR 0x5C], ''%2e%2e%2f'',
      ''%2e%2e/'', ''..%2f'', ''%2e%2e%5c'', [CHR 0x00], ''%00''}"
    by simp
  have c: "Contains ''cat docs/%2e%2e%2fsecret'' ''%2e%2e%2f''"
    by code_simp
  have a: "[''command'' \<mapsto> VString ''cat docs/%2e%2e%2fsecret''] ''command''
      = Some (VString ''cat docs/%2e%2e%2fsecret'')"
    by simp
  have g: "guardCommand linux_paths (NewExecTool ''/home/user/project'' True)
         ''cat docs/%2e%2e%2fsecret'' ''/home/user/project''
       = ''Command blocked by safety guard (URL-encoded path traversal detected)''"
    by code_simp
  from guardCommand_blocks_traversal [OF r m c, of linux_paths "''/home/user/project''"]
  have "\<forall>h args. args ''command'' = Some (VString ''cat docs/%2e%2e%2fsecret'') \<longrightarrow>
      IsError (fst (Execute h linux_paths (NewExecTool ''/home/user/project'' True) args))
      \<and> snd (Execute h linux_paths (NewExecTool ''/home/user/project'' True) args) = []"
    by blast
  with a have "snd (Execute (linux_host ok_result) linux_paths
      (NewExecTool ''/home/user/project'' True)
      [''command'' \<mapsto> VString ''cat docs/%2e%2e%2fsecret'']) = []"
    by blast
  with r c g show ?thesis by blast
qed

subsection \<open>Path tokens and the working directory\<close>

text \<open>
  C5. The claim has \<open>guardCommand\<close> extract every token that looks like an absolute path,
  in the POSIX form or in the drive-letter form, each ending at white space or at a quote,
  and block the command when the relative path of a token begins with \<open>..\<close>. The POSIX
  alternative of the path pattern does so; the drive-letter alternative ends a token at
  the next backslash or quote and runs through white space. In \<open>cat C:\x /etc/passwd\<close>
  the pattern finds the one token \<open>C:\x /etc/passwd\<close>, while the POSIX token in the words
  of the specification is \<open>/etc/passwd\<close>. With \<open>restrictToWorkspace\<close> set and the working
  directory \<open>/home/user/project\<close>, \<open>cat /etc/passwd\<close> is blocked (path outside working
  dir) and \<open>cat C:\x /etc/passwd\<close> is allowed. A drive-letter path is cut at its second
  backslash: \<open>C:\Users\me\a.txt\<close> gives the token \<open>C:\Users\<close>.
\<close>

theorem guardCommand_drive_letter_bypass:
  "FindAllString pathPattern (TrimSpace (''cat C:'' @ [CHR 0x5C] @ ''x /etc/passwd''))
     = [''C:'' @ [CHR 0x5C] @ ''x /etc/passwd'']
   \<and> spec_path_tokens (TrimSpace (''cat C:'' @ [CHR 0x5C] @ ''x /etc/passwd''))
     = [''/etc/passwd'']
   \<and> restrictToWorkspace (NewExecTool ''/home/user/project'' True)
   \<and> guardCommand linux_paths (NewExecTool ''/home/user/project'' True)
         (''cat C:'' @ [CHR 0x5C] @ ''x /etc/passwd'') ''/home/user/project'' = []
   \<and> guardCommand linux_paths (NewExecTool ''/home/user/project'' True)
         ''cat /etc/passwd'' ''/home/user/project''
       = ''Command blocked by safety guard (path outside working dir)''
   \<and> FindAllString pathPattern
         (''type C:'' @ [CHR 0x5C] @ ''Users'' @ [CHR 0x5C] @ ''me'' @ [CHR 0x5C] @ ''a.txt'')
     = [''C:'' @ [CHR 0x5C] @ ''Users'']"
proof -
  have "FindAllString pathPattern (TrimSpace (''cat C:'' @ [CHR 0x5C] @ ''x /etc/passwd''))
      = [''C:'' @ [CHR 0x5C] @ ''x /etc/passwd'']"
    by code_simp
  moreover have "spec_path_tokens (TrimSpace (''cat C:'' @ [CHR 0x5C] @ ''x /etc/passwd''))
      = [''/etc/passwd'']"
    by code_simp
  moreover have "restrictToWorkspace (NewExecTool ''/home/user/project'' True)"
    by (simp add: NewExecTool_def)
  moreover have "guardCommand linux_paths (NewExecTool ''/home/user/project'' True)
      (''cat C:'' @ [CHR 0x5C] @ ''x /etc/passwd'') ''/home/user/project'' = []"
    by code_simp
  moreover have "guardCommand linux_paths (NewExecTool ''/home/user/project'' True)
      ''cat /etc/passwd'' ''/home/user/project''
       = ''Command blocked by safety guard (path outside working dir)''"
    by code_simp
  moreover have "FindAllString pathPattern
      (''type C:'' @ [CHR 0x5C] @ ''Users'' @ [CHR 0x5C] @ ''me'' @ [CHR 0x5C] @ ''a.txt'')
      = [''C:'' @ [CHR 0x5C] @ ''Users'']"
    by code_simp
  ultimately show ?thesis by (intro conjI)
qed

subsection \<open>The allow list\<close>

text \<open>
  C6, as amended. For every command that matches no deny pattern: if the allow list is empty,
  no allow-list restriction is applied, so \<open>guardCommand\<close> allows the command when
  \<open>restrictToWorkspace\<close> is off and otherwise returns what the workspace-confinement
  checks alone return; if the allow list is not empty and the command matches none of its
  patterns, the command is blocked with the reason "not in allowlist".
\<close>

theorem guardCommand_allowlist:
  assumes "\<not> list_ex (\<lambda>p. MatchString p (ToLower (TrimSpace command))) (denyPatterns t)"
  shows "(allowPatterns t = [] \<longrightarrow>
            guardCommand fp t command cwd
              = (if restrictToWorkspace t
                 then guardCommand fp (t\<lparr>denyPatterns := [], allowPatterns := []\<rparr>) command cwd
                 else []))
         \<and> (allowPatterns t \<noteq> []
              \<and> \<not> list_ex (\<lambda>p. MatchString p (ToLower (TrimSpace command))) (allowPatterns t)
            \<longrightarrow> guardCommand fp t command cwd
                  = ''Command blocked by safety guard (not in allowlist)'')"
  using assms by (simp add: guardCommand_def Let_def)

theorem guardCommand_allowlist_witness:
  "\<not> list_ex (\<lambda>p. MatchString p (ToLower (TrimSpace ''ls -la'')))
       (denyPatterns (NewExecTool ''/home/user/project'' False))
   \<and> allowPatterns (NewExecTool ''/home/user/project'' False) = []
   \<and> guardCommand linux_paths (NewExecTool ''/home/user/project'' False) ''ls -la''
         ''/home/user/project'' = []
   \<and> allowPatterns (NewExecTool ''/home/user/project'' False\<lparr>allowPatterns := [lit ''git'']\<rparr>)
         \<noteq> []
   \<and> \<not> list_ex (\<lambda>p. MatchString p (ToLower (TrimSpace ''ls -la''))) [lit ''git'']
   \<and> guardCommand linux_paths
         (NewExecTool ''/home/user/project'' False\<lparr>allowPatterns := [lit ''git'']\<rparr>) ''ls -la''
         ''/home/user/project''
       = ''Command blocked by safety guard (not in allowlist)''"
proof -
  have d: "\<not> list_ex (\<lambda>p. MatchString p (ToLower (TrimSpace ''ls -la'')))
       (denyPatterns (NewExecTool ''/home/user/project'' False))"
    by code_simp
  then have d': "\<not> list_ex (\<lambda>p. MatchString p (ToLower (TrimSpace ''ls -la'')))
       (denyPatterns (NewExecTool ''/home/user/project'' False\<lparr>allowPatterns := [lit ''git'']\<rparr>))"
    by (simp add: NewExecTool_def)
  have e: "allowPatterns (NewExecTool ''/home/user/project'' False) = []"
    and r: "\<not> restrictToWorkspace (NewExecTool ''/home/user/project'' False)"
    and n: "allowPatterns
        (NewExecTool ''/home/user/project'' False\<lparr>allowPatterns := [lit ''git'']\<rparr>) = [lit ''git'']"
    by (simp_all add: NewExecTool_def)
  have a: "\<not> list_ex (\<lambda>p. MatchString p (ToLower (TrimSpace ''ls -la''))) [lit ''git'']"
    by code_simp
  from guardCommand_allowlist [OF d, of linux_paths "''/home/user/project''"] e r
  have 1: "guardCommand linux_paths (NewExecTool ''/home/user/project'' False) ''ls -la''
         ''/home/user/project'' = []"
    by simp
  from guardCommand_allowlist [OF d', of linux_paths "''/home/user/project''"] n a
  have 2: "guardCommand linux_paths
         (NewExecTool ''/home/user/project'' False\<lparr>allowPatterns := [lit ''git'']\<rparr>) ''ls -la''
         ''/home/user/project''
       = ''Command blocked by safety guard (not in allowlist)''"
    by simp
  from d e 1 n a 2 show ?thesis by simp
qed

text \<open>
  The claim as it is written fails when \<open>restrictToWorkspace\<close> is set: the command below
  matches no deny pattern, the allow list is empty, and the command is blocked.
\<close>

theorem guardCommand_allowlist_counterexample:
  "\<not> list_ex (\<lambda>p. MatchString p (ToLower (TrimSpace ''cat ../notes.txt'')))
       (denyPatterns (NewExecTool ''/home/user/project'' True))
   \<and> allowPatterns (NewExecTool ''/home/user/project'' True) = []
   \<and> guardCommand linux_paths (NewExecTool ''/home/user/project'' True) ''cat ../notes.txt''
         ''/home/user/project''
       = ''Command blocked by safety guard (path traversal detected)''"
proof -
  have "\<not> list_ex (\<lambda>p. MatchString p (ToLower (TrimSpace ''cat ../notes.txt'')))
       (denyPatterns (NewExecTool ''/home/user/project'' True))"
    by code_simp
  moreover have "allowPatterns (NewExecTool ''/home/user/project'' True) = []"
    by (simp add: NewExecTool_def)
  moreover have "guardCommand linux_paths (NewExecTool ''/home/user/project'' True)
      ''cat ../notes.txt'' ''/home/user/project''
       = ''Command blocked by safety guard (path traversal detected)''"
    by code_simp
  ultimately show ?thesis by blast
qed

subsection \<open>A pattern that does not compile\<close>

text \<open>
  C7. \<open>SetAllowPatterns\<close> assigns an empty list to the field before it compiles the first
  pattern. Here the tool has the allow list \<open>ls\<close>; the call with the single pattern \<open>(\<close>,
  which does not compile, returns the error and leaves the allow list empty. Before the
  call \<open>cat notes\<close> is blocked (not in allowlist); after the failed call it is allowed.
\<close>

theorem SetAllowPatterns_failure_clears:
  "fst (SetAllowPatterns (\<lambda>p. if p = ''('' then Inl ''missing closing )'' else Inr (lit p))
          (NewExecTool [] False\<lparr>allowPatterns := [lit ''ls'']\<rparr>) [''(''])
     = Some (InvalidAllowPattern ''('' ''missing closing )'')
   \<and> allowPatterns (NewExecTool [] False\<lparr>allowPatterns := [lit ''ls'']\<rparr>) = [lit ''ls'']
   \<and> allowPatterns
         (snd (SetAllowPatterns (\<lambda>p. if p = ''('' then Inl ''missing closing )'' else Inr (lit p))
            (NewExecTool [] False\<lparr>allowPatterns := [lit ''ls'']\<rparr>) [''(''])) = []
   \<and> guardCommand linux_paths (NewExecTool [] False\<lparr>allowPatterns := [lit ''ls'']\<rparr>)
         ''cat notes'' ''/home/user/project''
       = ''Command blocked by safety guard (not in allowlist)''
   \<and> guardCommand linux_paths
         (snd (SetAllowPatterns (\<lambda>p. if p = ''('' then Inl ''missing closing )'' else Inr (lit p))
            (NewExecTool [] False\<lparr>allowPatterns := [lit ''ls'']\<rparr>) [''('']))
         ''cat notes'' ''/home/user/project'' = []"
proof -
  have s: "SetAllowPatterns (\<lambda>p. if p = ''('' then Inl ''missing closing )'' else Inr (lit p))
          (NewExecTool [] False\<lparr>allowPatterns := [lit ''ls'']\<rparr>) [''('']
     = (Some (InvalidAllowPattern ''('' ''missing closing )''), NewExecTool [] False)"
    by (simp add: SetAllowPatterns_def NewExecTool_def)
  have b: "guardCommand linux_paths (NewExecTool [] False\<lparr>allowPatterns := [lit ''ls'']\<rparr>)
         ''cat notes'' ''/home/user/project''
       = ''Command blocked by safety guard (not in allowlist)''"
    by code_simp
  have a: "guardCommand linux_paths (NewExecTool [] False) ''cat notes'' ''/home/user/project''
       = []"
    by code_simp
  have e: "allowPatterns (NewExecTool [] False) = []"
    by (simp add: NewExecTool_def)
  from s b a e show ?thesis by simp
qed

subsection \<open>Timeout\<close>

text \<open>
  C8. When the guard allows the command and the child process runs past the deadline
  (\<open>cmd.Run\<close> returns an error and the context reports \<open>DeadlineExceeded\<close>), \<open>Execute\<close>
  returns the text "Command timed out after" followed by the configured timeout, with the
  error flag set; nothing of the captured output is in the result. The text differs from
  the text of every failure that is not a timeout, as long as the printed duration has
  no line feed in it.
\<close>

theorem Execute_timeout_outcome:
  assumes "args ''command'' = Some (VString command)"
    and "guardCommand fp t command (effective_cwd h t args) = []"
    and "run_err (Run h (CommandContext h t command (effective_cwd h t args))) = Some err"
    and "ctx_err (Run h (CommandContext h t command (effective_cwd h t args)))
           = Some DeadlineExceeded"
  shows "fst (Execute h fp t args)
           = \<lparr> ForLLM = ''Command timed out after '' @ duration_text h (timeout t),
               ForUser = ''Command timed out after '' @ duration_text h (timeout t),
               IsError = True \<rparr>
         \<and> (\<forall>r err'. run_err r = Some err' \<and> ctx_err r \<noteq> Some DeadlineExceeded
               \<and> CHR ''\<newline>'' \<notin> set (duration_text h (timeout t))
             \<longrightarrow> ForLLM (fst (Execute (h\<lparr>Run := \<lambda>cmd. r\<rparr>) fp t args))
                   \<noteq> ForLLM (fst (Execute h fp t args)))"
proof -
  have out: "Execute h fp t args
           = (\<lparr> ForLLM = ''Command timed out after '' @ duration_text h (timeout t),
                 ForUser = ''Command timed out after '' @ duration_text h (timeout t),
                 IsError = True \<rparr>,
              [CommandContext h t command (effective_cwd h t args)])"
    using assms by (rule Execute_timed_out)
  have "ForLLM (fst (Execute (h\<lparr>Run := \<lambda>cmd. r\<rparr>) fp t args))
          \<noteq> ForLLM (fst (Execute h fp t args))"
    if r: "run_err r = Some err'" "ctx_err r \<noteq> Some DeadlineExceeded"
      and d: "CHR ''\<newline>'' \<notin> set (duration_text h (timeout t))" for r err'
  proof -
    let ?h = "h\<lparr>Run := \<lambda>cmd. r\<rparr>"
    have cwd: "effective_cwd ?h t args = effective_cwd h t args"
      by (simp add: effective_cwd_def Let_def)
    have "Execute ?h fp t args
        = (\<lparr> ForLLM = truncate_output
                (combined_output (Run ?h (CommandContext ?h t command (effective_cwd ?h t args)))
                   @ ''\<newline>Exit code: '' @ err'),
              ForUser = truncate_output
                (combined_output (Run ?h (CommandContext ?h t command (effective_cwd ?h t args)))
                   @ ''\<newline>Exit code: '' @ err'),
              IsError = True \<rparr>,
           [CommandContext ?h t command (effective_cwd ?h t args)])"
      using assms(1,2) r by (intro Execute_failed) (simp_all add: cwd)
    then have "ForLLM (fst (Execute ?h fp t args))
        = truncate_output (combined_output r @ ''\<newline>Exit code: '' @ err')"
      by simp
    moreover have "CHR ''\<newline>'' \<in> set (truncate_output
        (combined_output r @ ''\<newline>Exit code: '' @ err'))"
      by (rule newline_in_truncate_output) simp
    moreover have "CHR ''\<newline>'' \<notin> set (ForLLM (fst (Execute h fp t args)))"
      using d by (simp add: out)
    ultimately show ?thesis by metis
  qed
  with out show ?thesis by simp
qed

theorem Execute_timeout_outcome_witness:
  "guardCommand linux_paths (NewExecTool ''/home/user/project'' True) ''sleep 120''
      ''/home/user/project'' = []
   \<and> fst (Execute (linux_host timed_out_result) linux_paths
           (NewExecTool ''/home/user/project'' True) [''command'' \<mapsto> VString ''sleep 120''])
       = \<lparr> ForLLM = ''Command timed out after 1m0s'', ForUser = ''Command timed out after 1m0s'',
           IsError = True \<rparr>
   \<and> ForLLM (fst (Execute (linux_host timed_out_result\<lparr>Run := \<lambda>cmd. boom_result\<rparr>) linux_paths
           (NewExecTool ''/home/user/project'' True) [''command'' \<mapsto> VString ''sleep 120'']))
       \<noteq> ''Command timed out after 1m0s''"
proof -
  let ?t = "NewExecTool ''/home/user/project'' True"
  let ?h = "linux_host timed_out_result"
  let ?args = "[''command'' \<mapsto> VString ''sleep 120'']"
  have cwd: "effective_cwd ?h ?t ?args = ''/home/user/project''"
    by (simp add: effective_cwd_def NewExecTool_def)
  have g: "guardCommand linux_paths ?t ''sleep 120'' ''/home/user/project'' = []"
    by code_simp
  have a: "?args ''command'' = Some (VString ''sleep 120'')"
    by simp
  have g': "guardCommand linux_paths ?t ''sleep 120'' (effective_cwd ?h ?t ?args) = []"
    using g by (simp only: cwd)
  have e: "run_err (Run ?h (CommandContext ?h ?t ''sleep 120'' (effective_cwd ?h ?t ?args)))
      = Some ''signal: killed''"
    by (simp add: linux_host_def timed_out_result_def)
  have c: "ctx_err (Run ?h (CommandContext ?h ?t ''sleep 120'' (effective_cwd ?h ?t ?args)))
      = Some DeadlineExceeded"
    by (simp add: linux_host_def timed_out_result_def)
  have d: "duration_text ?h (timeout ?t) = ''1m0s''"
    by (simp add: linux_host_def)
  note w = Execute_timeout_outcome [OF a g' e c]
  from w have 1: "fst (Execute ?h linux_paths ?t ?args)
       = \<lparr> ForLLM = ''Command timed out after 1m0s'', ForUser = ''Command timed out after 1m0s'',
           IsError = True \<rparr>"
    by (simp add: d)
  from w have "run_err boom_result = Some ''exit status 1''
      \<and> ctx_err boom_result \<noteq> Some DeadlineExceeded
      \<and> CHR ''\<newline>'' \<notin> set (duration_text ?h (timeout ?t))
      \<longrightarrow> ForLLM (fst (Execute (?h\<lparr>Run := \<lambda>cmd. boom_result\<rparr>) linux_paths ?t ?args))
          \<noteq> ForLLM (fst (Execute ?h linux_paths ?t ?args))"
    by blast
  then have 2: "ForLLM (fst (Execute (?h\<lparr>Run := \<lambda>cmd. boom_result\<rparr>) linux_paths ?t ?args))
       \<noteq> ''Command timed out after 1m0s''"
    by (simp add: d 1 boom_result_def)
  from g 1 2 show ?thesis by simp
qed

subsection \<open>Failure without timeout\<close>

text \<open>
  C9, as amended. When the guard allows the command and the child process ends with an
  error that is not a timeout, \<open>Execute\<close> sets the error flag. The combined text is the
  standard output, then (if the standard error is not empty) a line \<open>STDERR:\<close> and the
  standard error, then the appended marker \<open>Exit code:\<close> with the error. The result is this
  combined text, cut to its first 10000 bytes and closed by the truncation marker when it is
  longer; when the combined text has at most 10000 bytes, the result is the whole of it.
\<close>

theorem Execute_failure_outcome:
  assumes "args ''command'' = Some (VString command)"
    and "guardCommand fp t command (effective_cwd h t args) = []"
    and "Run h (CommandContext h t command (effective_cwd h t args)) = r"
    and "run_err r = Some err"
    and "ctx_err r \<noteq> Some DeadlineExceeded"
    and "combined = stdout r @ (if stderr r \<noteq> [] then ''\<newline>STDERR:\<newline>'' @ stderr r else [])
           @ ''\<newline>Exit code: '' @ err"
  shows "IsError (fst (Execute h fp t args))
         \<and> ForLLM (fst (Execute h fp t args)) = truncate_output combined
         \<and> ForUser (fst (Execute h fp t args)) = truncate_output combined
         \<and> (length combined \<le> 10000 \<longrightarrow> ForLLM (fst (Execute h fp t args)) = combined)
         \<and> (length combined > 10000 \<longrightarrow>
               ForLLM (fst (Execute h fp t args))
                 = take 10000 combined @ ''\<newline>... (truncated, ''
                     @ show_nat (length combined - 10000) @ '' more chars)'')"
proof -
  have c: "combined = combined_output r @ ''\<newline>Exit code: '' @ err"
    by (simp add: assms(6) combined_output_def)
  have "Execute h fp t args
      = (\<lparr> ForLLM = truncate_output combined, ForUser = truncate_output combined,
            IsError = True \<rparr>,
         [CommandContext h t command (effective_cwd h t args)])"
    using Execute_failed [of args command fp t h err] assms(1-5) by (simp add: c)
  then show ?thesis by (simp add: truncate_output_def maxLen_def)
qed

theorem Execute_failure_outcome_witness:
  "guardCommand linux_paths (NewExecTool ''/home/user/project'' True) ''sh fail.sh''
      ''/home/user/project'' = []
   \<and> stderr boom_result = ''boom'' \<and> run_err boom_result = Some ''exit status 1''
   \<and> IsError (fst (Execute (linux_host boom_result) linux_paths
         (NewExecTool ''/home/user/project'' True) [''command'' \<mapsto> VString ''sh fail.sh'']))
   \<and> ForLLM (fst (Execute (linux_host boom_result) linux_paths
         (NewExecTool ''/home/user/project'' True) [''command'' \<mapsto> VString ''sh fail.sh'']))
       = ''\<newline>STDERR:\<newline>boom\<newline>Exit code: exit status 1''"
proof -
  let ?t = "NewExecTool ''/home/user/project'' True"
  let ?h = "linux_host boom_result"
  let ?args = "[''command'' \<mapsto> VString ''sh fail.sh'']"
  have cwd: "effective_cwd ?h ?t ?args = ''/home/user/project''"
    by (simp add: effective_cwd_def NewExecTool_def)
  have g: "guardCommand linux_paths ?t ''sh fail.sh'' ''/home/user/project'' = []"
    by code_simp
  have a: "?args ''command'' = Some (VString ''sh fail.sh'')"
    by simp
  have g': "guardCommand linux_paths ?t ''sh fail.sh'' (effective_cwd ?h ?t ?args) = []"
    using g by (simp only: cwd)
  have r: "Run ?h (CommandContext ?h ?t ''sh fail.sh'' (effective_cwd ?h ?t ?args)) = boom_result"
    by (simp add: linux_host_def)
  have e: "run_err boom_result = Some ''exit status 1''"
    and c: "ctx_err boom_result \<noteq> Some DeadlineExceeded"
    and s: "stderr boom_result = ''boom''"
    and k: "''\<newline>STDERR:\<newline>boom\<newline>Exit code: exit status 1''
      = stdout boom_result
        @ (if stderr boom_result \<noteq> [] then ''\<newline>STDERR:\<newline>'' @ stderr boom_result else [])
        @ ''\<newline>Exit code: '' @ ''exit status 1''"
    by (simp_all add: boom_result_def)
  note w = Execute_failure_outcome [OF a g' r e c k]
  have len: "length ''\<newline>STDERR:\<newline>boom\<newline>Exit code: exit status 1'' \<le> 10000"
    by simp
  from w have 1: "IsError (fst (Execute ?h linux_paths ?t ?args))"
    by (rule conjunct1)
  from w have "length ''\<newline>STDERR:\<newline>boom\<newline>Exit code: exit status 1'' \<le> 10000
      \<longrightarrow> ForLLM (fst (Execute ?h linux_paths ?t ?args))
          = ''\<newline>STDERR:\<newline>boom\<newline>Exit code: exit status 1''"
    by (elim conjE)
  with len have 2: "ForLLM (fst (Execute ?h linux_paths ?t ?args))
          = ''\<newline>STDERR:\<newline>boom\<newline>Exit code: exit status 1''"
    by (rule rev_mp)
  from g s e 1 2 show ?thesis by (intro conjI)
qed

text \<open>
  The claim as it is written fails on a long output: after 10000 bytes of standard output
  the result is cut before the \<open>STDERR:\<close> section and before the exit marker.
\<close>

theorem Execute_failure_outcome_counterexample:
  "guardCommand linux_paths (NewExecTool ''/home/user/project'' True) ''sh fail.sh''
      ''/home/user/project'' = []
   \<and> stderr long_boom_result = ''boom'' \<and> run_err long_boom_result = Some ''exit status 1''
   \<and> ctx_err long_boom_result = None
   \<and> ForLLM (fst (Execute (linux_host long_boom_result) linux_paths
         (NewExecTool ''/home/user/project'' True) [''command'' \<mapsto> VString ''sh fail.sh'']))
       = replicate 10000 CHR ''a'' @ ''\<newline>... (truncated, 38 more chars)''
   \<and> \<not> Contains (ForLLM (fst (Execute (linux_host long_boom_result) linux_paths
         (NewExecTool ''/home/user/project'' True) [''command'' \<mapsto> VString ''sh fail.sh''])))
       ''STDERR:''
   \<and> \<not> Contains (ForLLM (fst (Execute (linux_host long_boom_result) linux_paths
         (NewExecTool ''/home/user/project'' True) [''command'' \<mapsto> VString ''sh fail.sh''])))
       ''Exit code:''"
proof -
  let ?t = "NewExecTool ''/home/user/project'' True"
  let ?h = "linux_host long_boom_result"
  let ?args = "[''command'' \<mapsto> VString ''sh fail.sh'']"
  have cwd: "effective_cwd ?h ?t ?args = ''/home/user/project''"
    by (simp add: effective_cwd_def NewExecTool_def)
  have g: "guardCommand linux_paths ?t ''sh fail.sh'' ''/home/user/project'' = []"
    by code_simp
  have a: "?args ''command'' = Some (VString ''sh fail.sh'')"
    by simp
  have g': "guardCommand linux_paths ?t ''sh fail.sh'' (effective_cwd ?h ?t ?args) = []"
    using g by (simp only: cwd)
  have e: "run_err (Run ?h (CommandContext ?h ?t ''sh fail.sh'' (effective_cwd ?h ?t ?args)))
      = Some ''exit status 1''"
    and c: "ctx_err (Run ?h (CommandContext ?h ?t ''sh fail.sh'' (effective_cwd ?h ?t ?args)))
      \<noteq> Some DeadlineExceeded"
    by (simp_all add: linux_host_def long_boom_result_def)
  have n: "show_nat 38 = ''38''"
    by code_simp
  have "ForLLM (fst (Execute ?h linux_paths ?t ?args))
      = truncate_output (combined_output (Run ?h (CommandContext ?h ?t ''sh fail.sh''
            (effective_cwd ?h ?t ?args))) @ ''\<newline>Exit code: '' @ ''exit status 1'')"
    using Execute_failed [OF a g' e c] by simp
  also have "\<dots> = replicate 10000 CHR ''a'' @ ''\<newline>... (truncated, 38 more chars)''"
    by (simp add: linux_host_def long_boom_result_def combined_output_def truncate_output_def
        maxLen_def n)
  finally have out: "ForLLM (fst (Execute ?h linux_paths ?t ?args))
      = replicate 10000 CHR ''a'' @ ''\<newline>... (truncated, 38 more chars)''" .
  have 1: "\<not> Contains (replicate 10000 CHR ''a'' @ ''\<newline>... (truncated, 38 more chars)'')
      ''STDERR:''"
    by (simp add: Contains_replicate_append)
  have 2: "\<not> Contains (replicate 10000 CHR ''a'' @ ''\<newline>... (truncated, 38 more chars)'')
      ''Exit code:''"
    by (simp add: Contains_replicate_append)
  have "stderr long_boom_result = ''boom''" "run_err long_boom_result = Some ''exit status 1''"
    "ctx_err long_boom_result = None"
    by (simp_all add: long_boom_result_def)
  with g out 1 2 show ?thesis by simp
qed

subsection \<open>The confinement checks compare the text as it is written\<close>

text \<open>
  C10, as amended. The deny patterns are tested against the lower-cased command; the checks
  for traversal sequences, their percent-encoded forms and null bytes look at the trimmed
  command in its own letter case. So a command with \<open>restrictToWorkspace\<close> set that contains
  none of \<open>../\<close>, \<open>..\\<close>, \<open>%2e%2e%2f\<close>, \<open>%2e%2e/\<close>, \<open>..%2f\<close>, \<open>%2e%2e%5c\<close>, the byte 0 and
  \<open>%00\<close>, that matches no deny pattern, that passes the allow list (the list is empty or
  one of its patterns matches), and none of whose path tokens has a relative path that
  begins with \<open>..\<close>, is allowed; an upper-case \<open>%2E%2E%2F\<close> in it changes nothing.
\<close>

theorem guardCommand_case_sensitive:
  assumes "restrictToWorkspace t"
    and "\<not> list_ex (\<lambda>p. MatchString p (ToLower (TrimSpace command))) (denyPatterns t)"
    and "allowPatterns t = []
         \<or> list_ex (\<lambda>p. MatchString p (ToLower (TrimSpace command))) (allowPatterns t)"
    and "\<forall>sq \<in> {''../'', [CHR ''.'', CHR ''.'', CHR 0x5C], ''%2e%2e%2f'', ''%2e%2e/'',
                   ''..%2f'', ''%2e%2e%5c'', [CHR 0x00], ''%00''}. \<not> Contains command sq"
    and "\<forall>cwdPath. Abs fp cwd = Inr cwdPath \<longrightarrow>
           (\<forall>raw \<in> set (FindAllString pathPattern (TrimSpace command)). \<forall>p rel.
              Abs fp raw = Inr p \<and> Rel fp cwdPath p = Inr rel \<longrightarrow> \<not> HasPrefix rel ''..'')"
  shows "guardCommand fp t command cwd = []"
proof -
  have no: "\<not> Contains (TrimSpace command) sq"
    if "sq \<in> {''../'', [CHR ''.'', CHR ''.'', CHR 0x5C], ''%2e%2e%2f'', ''%2e%2e/'',
                 ''..%2f'', ''%2e%2e%5c'', [CHR 0x00], ''%00''}" for sq
  proof
    assume "Contains (TrimSpace command) sq"
    then have "Contains command sq" by (rule Contains_TrimSpace)
    moreover from assms(4) that have "\<not> Contains command sq" by (rule bspec)
    ultimately show False by contradiction
  qed
  have n1: "\<not> Contains (TrimSpace command) [CHR ''.'', CHR ''.'', CHR 0x5C]"
    and n2: "\<not> Contains (TrimSpace command) ''../''"
    and n3: "\<not> Contains (TrimSpace command) ''%2e%2e%2f''"
    and n4: "\<not> Contains (TrimSpace command) ''%2e%2e/''"
    and n5: "\<not> Contains (TrimSpace command) ''..%2f''"
    and n6: "\<not> Contains (TrimSpace command) ''%2e%2e%5c''"
    and n7: "\<not> Contains (TrimSpace command) [CHR 0x00]"
    and n8: "\<not> Contains (TrimSpace command) ''%00''"
    by (rule no, simp)+
  have paths: "(case Abs fp cwd of Inl err \<Rightarrow> []
      | Inr cwdPath \<Rightarrow> check_paths fp cwdPath (FindAllString pathPattern (TrimSpace command)))
      = []"
  proof (cases "Abs fp cwd")
    case (Inl err)
    then show ?thesis by simp
  next
    case (Inr cwdPath)
    with assms(5) have "check_paths fp cwdPath (FindAllString pathPattern (TrimSpace command))
        = []"
      by (intro check_paths_none) blast
    with Inr show ?thesis by simp
  qed
  from assms(2,3) n1 n2 n3 n4 n5 n6 n7 n8 paths show ?thesis
    by (simp add: guardCommand_def Let_def)
qed

theorem guardCommand_case_sensitive_witness:
  "restrictToWorkspace (NewExecTool ''/home/user/project'' True)
   \<and> Contains ''cat %2E%2E%2Fetc%2Fpasswd'' ''%2E%2E%2F''
   \<and> guardCommand linux_paths (NewExecTool ''/home/user/project'' True)
         ''cat %2E%2E%2Fetc%2Fpasswd'' ''/home/user/project'' = []"
proof -
  have r: "restrictToWorkspace (NewExecTool ''/home/user/project'' True)"
    and e: "allowPatterns (NewExecTool ''/home/user/project'' True) = []
         \<or> list_ex (\<lambda>p. MatchString p (ToLower (TrimSpace ''cat %2E%2E%2Fetc%2Fpasswd'')))
              (allowPatterns (NewExecTool ''/home/user/project'' True))"
    by (simp_all add: NewExecTool_def)
  have d: "\<not> list_ex (\<lambda>p. MatchString p (ToLower (TrimSpace ''cat %2E%2E%2Fetc%2Fpasswd'')))
      (denyPatterns (NewExecTool ''/home/user/project'' True))"
    by code_simp
  have c: "\<forall>sq \<in> {''../'', [CHR ''.'', CHR ''.'', CHR 0x5C], ''%2e%2e%2f'', ''%2e%2e/'',
      ''..%2f'', ''%2e%2e%5c'', [CHR 0x00], ''%00''}. \<not> Contains ''cat %2E%2E%2Fetc%2Fpasswd'' sq"
    by simp
  have "FindAllString pathPattern (TrimSpace ''cat %2E%2E%2Fetc%2Fpasswd'') = []"
    by code_simp
  then have p: "\<forall>cwdPath. Abs linux_paths ''/home/user/project'' = Inr cwdPath \<longrightarrow>
      (\<forall>raw \<in> set (FindAllString pathPattern (TrimSpace ''cat %2E%2E%2Fetc%2Fpasswd'')).
         \<forall>p rel. Abs linux_paths raw = Inr p \<and> Rel linux_paths cwdPath p = Inr rel
           \<longrightarrow> \<not> HasPrefix rel ''..'')"
    by simp
  have u: "Contains ''cat %2E%2E%2Fetc%2Fpasswd'' ''%2E%2E%2F''"
    by code_simp
  from guardCommand_case_sensitive [OF r d e c p] r u show ?thesis by blast
qed

text \<open>
  The claim as it is written does not mention the allow list: with an allow list that the
  command misses, a command that meets every condition the claim lists is blocked.
\<close>

theorem guardCommand_case_sensitive_counterexample:
  "restrictToWorkspace (NewExecTool ''/home/user/project'' True\<lparr>allowPatterns := [lit ''ls'']\<rparr>)
   \<and> Contains ''cat %2E%2E%2Fetc'' ''%2E%2E%2F''
   \<and> \<not> list_ex (Contains ''cat %2E%2E%2Fetc'')
         [''../'', [CHR ''.'', CHR ''.'', CHR 0x5C], ''%2e%2e%2f'', ''%2e%2e/'', ''..%2f'',
          ''%2e%2e%5c'', [CHR 0x00], ''%00'']
   \<and> \<not> list_ex (\<lambda>p. MatchString p (ToLower (TrimSpace ''cat %2E%2E%2Fetc'')))
         (denyPatterns (NewExecTool ''/home/user/project'' True\<lparr>allowPatterns := [lit ''ls'']\<rparr>))
   \<and> FindAllString pathPattern (TrimSpace ''cat %2E%2E%2Fetc'') = []
   \<and> guardCommand linux_paths
         (NewExecTool ''/home/user/project'' True\<lparr>allowPatterns := [lit ''ls'']\<rparr>)
         ''cat %2E%2E%2Fetc'' ''/home/user/project''
       = ''Command blocked by safety guard (not in allowlist)''"
proof -
  have "restrictToWorkspace
      (NewExecTool ''/home/user/project'' True\<lparr>allowPatterns := [lit ''ls'']\<rparr>)"
    by (simp add: NewExecTool_def)
  moreover have "Contains ''cat %2E%2E%2Fetc'' ''%2E%2E%2F''"
    by code_simp
  moreover have "\<not> list_ex (Contains ''cat %2E%2E%2Fetc'')
         [''../'', [CHR ''.'', CHR ''.'', CHR 0x5C], ''%2e%2e%2f'', ''%2e%2e/'', ''..%2f'',
          ''%2e%2e%5c'', [CHR 0x00], ''%00'']"
    by code_simp
  moreover have "\<not> list_ex (\<lambda>p. MatchString p (ToLower (TrimSpace ''cat %2E%2E%2Fetc'')))
         (denyPatterns (NewExecTool ''/home/user/project'' True\<lparr>allowPatterns := [lit ''ls'']\<rparr>))"
    by code_simp
  moreover have "FindAllString pathPattern (TrimSpace ''cat %2E%2E%2Fetc'') = []"
    by code_simp
  moreover have "guardCommand linux_paths
         (NewExecTool ''/home/user/project'' True\<lparr>allowPatterns := [lit ''ls'']\<rparr>)
         ''cat %2E%2E%2Fetc'' ''/home/user/project''
       = ''Command blocked by safety guard (not in allowlist)''"
    by code_simp
  ultimately show ?thesis by blast
qed

end
